theory Spec2Isabelle
  imports Complex_Main "HOL-Library.Monad_Syntax"
begin

section \<open>Go run-time conventions\<close>

text \<open>
  A Go call either returns its result values or panics. Every function below that can
  reach an index or slice expression returns an \<open>option\<close>: \<open>Some r\<close> when the call
  returns \<open>r\<close>, \<open>None\<close> when it does not return a value (a run-time panic, or a
  library call outside the fragment of the library that is modelled here). A Go
  \<open>error\<close> result is an \<open>error option\<close>, \<open>None\<close> being \<open>nil\<close>, and a result
  list \<open>(float64, error)\<close> is a pair.

  Strings are byte sequences, as in Go: \<open>len(s)\<close> counts bytes. Slices are lists whose
  last element is the one appended last.
\<close>

definition len :: "'a list \<Rightarrow> int" where
  "len xs = int (length xs)"

definition index :: "'a list \<Rightarrow> int \<Rightarrow> 'a option" where
  \<comment> \<open>\<open>xs[i]\<close>: panics when \<open>i\<close> is out of range.\<close>
  "index xs i = (if 0 \<le> i \<and> i < len xs then Some (xs ! nat i) else None)"

definition slice_to :: "'a list \<Rightarrow> int \<Rightarrow> 'a list option" where
  \<comment> \<open>\<open>xs[:n]\<close>: panics when \<open>n\<close> is negative or beyond the slice (the code only
      shrinks its slices, so the capacity beyond the length never matters).\<close>
  "slice_to xs n = (if 0 \<le> n \<and> n \<le> len xs then Some (take (nat n) xs) else None)"

section \<open>float64\<close>

text \<open>
  An IEEE 754 binary64 value: a finite number \<open>(-1)^s * m * 2^e\<close> in canonical form
  (\<open>m < 2^53\<close>, \<open>-1074 \<le> e \<le> 971\<close>, and \<open>2^52 \<le> m\<close> unless \<open>e = -1074\<close>; the
  zeros are \<open>Finite s 0 (-1074)\<close>), an infinity, or a NaN (payloads are not
  distinguished). Arithmetic is the exact rational result rounded to nearest, ties to
  even, which is what Go's \<open>+ - * /\<close> on \<open>float64\<close> variables compute.
\<close>

datatype float64 = Finite bool nat int | Infinity bool | NaN

definition pow2 :: "int \<Rightarrow> rat" where
  "pow2 e = (if 0 \<le> e then 2 ^ nat e else 1 / 2 ^ nat (- e))"

fun valof :: "float64 \<Rightarrow> rat" where
  \<comment> \<open>The number a finite float64 stands for.\<close>
  "valof (Finite s m e) = (if s then - (of_nat m * pow2 e) else of_nat m * pow2 e)"
| "valof (Infinity s) = 0"
| "valof NaN = 0"

fun bits :: "nat \<Rightarrow> nat" where
  \<comment> \<open>The length of the binary numeral of \<open>n\<close>.\<close>
  "bits n = (if n = 0 then 0 else Suc (bits (n div 2)))"

definition reaches :: "nat \<Rightarrow> nat \<Rightarrow> int \<Rightarrow> bool" where
  \<comment> \<open>\<open>2^k \<le> n / d\<close>, for \<open>d > 0\<close>.\<close>
  "reaches n d k = (if 0 \<le> k then d * 2 ^ nat k \<le> n else d \<le> n * 2 ^ nat (- k))"

definition ilog2 :: "nat \<Rightarrow> nat \<Rightarrow> int" where
  \<comment> \<open>\<open>\<lfloor>log\<^sub>2 (n / d)\<rfloor>\<close> for \<open>n > 0\<close> and \<open>d > 0\<close>: the difference of the two bit
      lengths, or one less.\<close>
  "ilog2 n d =
     (if reaches n d (int (bits n) - int (bits d))
      then int (bits n) - int (bits d)
      else int (bits n) - int (bits d) - 1)"

definition round_even :: "nat \<Rightarrow> nat \<Rightarrow> nat" where
  \<comment> \<open>The integer nearest to \<open>n / d\<close>, a tie going to the even one.\<close>
  "round_even n d =
     (if 2 * (n mod d) < d then n div d
      else if d < 2 * (n mod d) then n div d + 1
      else if even (n div d) then n div d
      else n div d + 1)"

definition exponent64 :: "nat \<Rightarrow> nat \<Rightarrow> int \<Rightarrow> int" where
  \<comment> \<open>The exponent at which \<open>(n / d) * 2^x\<close> has a significand of 53 bits, or the least
      exponent when the number is below the normal range.\<close>
  "exponent64 n d x = max (ilog2 n d + x - 52) (- 1074)"

definition significand64 :: "nat \<Rightarrow> nat \<Rightarrow> int \<Rightarrow> int \<Rightarrow> nat" where
  \<comment> \<open>\<open>(n / d) * 2^x / 2^e\<close> rounded to an integer.\<close>
  "significand64 n d x e =
     (if e \<le> x then round_even (n * 2 ^ nat (x - e)) d
      else round_even n (d * 2 ^ nat (e - x)))"

definition pack64 :: "bool \<Rightarrow> nat \<Rightarrow> int \<Rightarrow> float64" where
  \<comment> \<open>A significand that rounded up to \<open>2^53\<close> moves to the next exponent; an exponent
      beyond 971 overflows to an infinity.\<close>
  "pack64 s m e =
     (if m = 2 ^ 53
      then (if 971 < e + 1 then Infinity s else Finite s (2 ^ 52) (e + 1))
      else if 971 < e then Infinity s
      else Finite s m e)"

definition round64 :: "bool \<Rightarrow> nat \<Rightarrow> nat \<Rightarrow> int \<Rightarrow> float64" where
  \<comment> \<open>The float64 of sign \<open>s\<close> nearest to the magnitude \<open>(n / d) * 2^x\<close>, for
      \<open>d > 0\<close>.\<close>
  "round64 s n d x =
     (if n = 0 then Finite s 0 (- 1074)
      else pack64 s (significand64 n d x (exponent64 n d x)) (exponent64 n d x))"

definition f64_of_nat :: "nat \<Rightarrow> float64" where
  \<comment> \<open>The float64 nearest to a natural number.\<close>
  "f64_of_nat n = round64 False n 1 0"

definition scaled :: "bool \<Rightarrow> nat \<Rightarrow> int \<Rightarrow> int \<Rightarrow> int" where
  \<comment> \<open>The integer \<open>(-1)^s * m * 2^e / 2^x\<close>, for \<open>x \<le> e\<close>.\<close>
  "scaled s m e x = (if s then - (int m * 2 ^ nat (e - x)) else int m * 2 ^ nat (e - x))"

fun f64_neg :: "float64 \<Rightarrow> float64" where
  "f64_neg (Finite s m e) = Finite (\<not> s) m e"
| "f64_neg (Infinity s) = Infinity (\<not> s)"
| "f64_neg NaN = NaN"

definition sum64 :: "bool \<Rightarrow> int \<Rightarrow> int \<Rightarrow> float64" where
  \<comment> \<open>The float64 nearest to the exact sum \<open>r * 2^x\<close>; a sum of zero has the sign
      \<open>z\<close>.\<close>
  "sum64 z r x = (if r = 0 then Finite z 0 (- 1074) else round64 (r < 0) (nat \<bar>r\<bar>) 1 x)"

fun f64_add :: "float64 \<Rightarrow> float64 \<Rightarrow> float64" where
  \<comment> \<open>An exact sum of zero is \<open>+0\<close> unless both operands are negative.\<close>
  "f64_add NaN y = NaN"
| "f64_add x NaN = NaN"
| "f64_add (Infinity s) (Infinity t) = (if s = t then Infinity s else NaN)"
| "f64_add (Infinity s) (Finite t n f) = Infinity s"
| "f64_add (Finite s m e) (Infinity t) = Infinity t"
| "f64_add (Finite s m e) (Finite t n f) =
     sum64 (s \<and> t) (scaled s m e (min e f) + scaled t n f (min e f)) (min e f)"

definition f64_sub :: "float64 \<Rightarrow> float64 \<Rightarrow> float64" where
  "f64_sub x y = f64_add x (f64_neg y)"

fun f64_mul :: "float64 \<Rightarrow> float64 \<Rightarrow> float64" where
  "f64_mul NaN y = NaN"
| "f64_mul x NaN = NaN"
| "f64_mul (Infinity s) (Infinity t) = Infinity (s \<noteq> t)"
| "f64_mul (Infinity s) (Finite t n f) = (if n = 0 then NaN else Infinity (s \<noteq> t))"
| "f64_mul (Finite s m e) (Infinity t) = (if m = 0 then NaN else Infinity (s \<noteq> t))"
| "f64_mul (Finite s m e) (Finite t n f) = round64 (s \<noteq> t) (m * n) 1 (e + f)"

fun f64_div :: "float64 \<Rightarrow> float64 \<Rightarrow> float64" where
  "f64_div NaN y = NaN"
| "f64_div x NaN = NaN"
| "f64_div (Infinity s) (Infinity t) = NaN"
| "f64_div (Infinity s) (Finite t n f) = Infinity (s \<noteq> t)"
| "f64_div (Finite s m e) (Infinity t) = Finite (s \<noteq> t) 0 (- 1074)"
| "f64_div (Finite s m e) (Finite t n f) =
     (if n = 0 then (if m = 0 then NaN else Infinity (s \<noteq> t))
      else round64 (s \<noteq> t) m n (e - f))"

fun f64_eq :: "float64 \<Rightarrow> float64 \<Rightarrow> bool" where
  \<comment> \<open>Go's \<open>==\<close> on float64: a NaN equals nothing, the two zeros are equal.\<close>
  "f64_eq NaN y = False"
| "f64_eq x NaN = False"
| "f64_eq (Infinity s) (Infinity t) = (s = t)"
| "f64_eq (Infinity s) (Finite t n f) = False"
| "f64_eq (Finite s m e) (Infinity t) = False"
| "f64_eq (Finite s m e) (Finite t n f) =
     (scaled s m e (min e f) = scaled t n f (min e f))"

definition zero64 :: float64 where
  \<comment> \<open>The constant \<open>0\<close> of type float64.\<close>
  "zero64 = Finite False 0 (- 1074)"

section \<open>The library calls of the source\<close>

subsection \<open>unicode/utf8 and strings\<close>

definition in_range :: "char \<Rightarrow> nat \<Rightarrow> nat \<Rightarrow> bool" where
  "in_range c lo hi = (lo \<le> of_char c \<and> of_char c \<le> (hi::nat))"

definition multi_size :: "nat \<Rightarrow> nat \<Rightarrow> nat \<Rightarrow> string \<Rightarrow> nat" where
  \<comment> \<open>The width of a sequence whose first byte announces \<open>sz\<close> bytes and accepts a
      second byte in \<open>lo..hi\<close>; \<open>cs\<close> are the bytes after the first. An incomplete or
      ill-formed sequence has width 1.\<close>
  "multi_size sz lo hi cs =
     (if 1 + length cs < sz then 1
      else if \<not> in_range (cs ! 0) lo hi then 1
      else if sz \<le> 2 then 2
      else if \<not> in_range (cs ! 1) 0x80 0xBF then 1
      else if sz \<le> 3 then 3
      else if \<not> in_range (cs ! 2) 0x80 0xBF then 1
      else 4)"

definition lead_size :: "nat \<Rightarrow> string \<Rightarrow> nat" where
  \<comment> \<open>The width of the sequence that starts with the byte \<open>b\<close> and goes on with
      \<open>cs\<close>: one byte for ASCII and for a byte that starts no sequence.\<close>
  "lead_size b cs =
     (if b < 0x80 then 1
      else if b < 0xC2 then 1
      else if b \<le> 0xDF then multi_size 2 0x80 0xBF cs
      else if b = 0xE0 then multi_size 3 0xA0 0xBF cs
      else if b \<le> 0xEC then multi_size 3 0x80 0xBF cs
      else if b = 0xED then multi_size 3 0x80 0x9F cs
      else if b \<le> 0xEF then multi_size 3 0x80 0xBF cs
      else if b = 0xF0 then multi_size 4 0x90 0xBF cs
      else if b \<le> 0xF3 then multi_size 4 0x80 0xBF cs
      else if b = 0xF4 then multi_size 4 0x80 0x8F cs
      else 1)"

fun rune_size :: "string \<Rightarrow> nat" where
  \<comment> \<open>The width that \<open>utf8.DecodeRuneInString\<close> returns: the number of bytes of the
      first UTF-8 sequence of the string, 1 for a byte that starts no well-formed
      sequence, 0 for the empty string.\<close>
  "rune_size [] = 0"
| "rune_size (c # cs) = lead_size (of_char c) cs"

function explode :: "string \<Rightarrow> string list" where
  \<comment> \<open>\<open>strings.Split(s, "")\<close>: the string cut into its UTF-8 sequences, an invalid byte
      being a piece of its own; no piece for the empty string.\<close>
  "explode s = (if s = [] then [] else take (rune_size s) s # explode (drop (rune_size s) s))"
  by pat_completeness auto

termination
proof (relation "measure length")
  show "wf (measure length)" by simp
next
  fix s :: string
  assume "s \<noteq> []"
  then obtain c cs where s: "s = c # cs" by (cases s) auto
  have "0 < rune_size (c # cs)"
    by (simp add: lead_size_def multi_size_def)
  with s show "(drop (rune_size s) s, s) \<in> measure length" by simp
qed

function replace_from :: "string \<Rightarrow> string \<Rightarrow> string \<Rightarrow> string" where
  \<comment> \<open>Every non-overlapping occurrence of the non-empty \<open>old\<close>, leftmost first,
      replaced by \<open>new\<close>.\<close>
  "replace_from s old new =
     (if s = [] \<or> old = [] then s
      else if take (length old) s = old
      then new @ replace_from (drop (length old) s) old new
      else hd s # replace_from (tl s) old new)"
  by pat_completeness auto
termination
  by (relation "measure (\<lambda>(s, old, new). length s)") auto

definition ReplaceAll :: "string \<Rightarrow> string \<Rightarrow> string \<Rightarrow> string" where
  \<comment> \<open>\<open>strings.ReplaceAll(s, old, new)\<close>; an empty \<open>old\<close> matches before every UTF-8
      sequence and at the end.\<close>
  "ReplaceAll s old new =
     (if old = new then s
      else if old = [] then new @ concat (map (\<lambda>r. r @ new) (explode s))
      else replace_from s old new)"

function split_on :: "string \<Rightarrow> string \<Rightarrow> string \<Rightarrow> string list" where
  \<comment> \<open>The pieces of \<open>s\<close> between the occurrences of the non-empty \<open>sep\<close>; \<open>cur\<close> is
      the piece read so far.\<close>
  "split_on s sep cur =
     (if s = [] \<or> sep = [] then [cur @ s]
      else if take (length sep) s = sep
      then cur # split_on (drop (length sep) s) sep []
      else split_on (tl s) sep (cur @ [hd s]))"
  by pat_completeness auto
termination
  by (relation "measure (\<lambda>(s, sep, cur). length s)") auto

definition Split :: "string \<Rightarrow> string \<Rightarrow> string list" where
  \<comment> \<open>\<open>strings.Split(s, sep)\<close>.\<close>
  "Split s sep = (if sep = [] then explode s else split_on s sep [])"

subsection \<open>strconv.ParseFloat\<close>

datatype NumError = ErrSyntax | ErrRange

definition is_digit :: "char \<Rightarrow> bool" where
  "is_digit c = in_range c 0x30 0x39"

definition digit_value :: "char \<Rightarrow> nat" where
  "digit_value c = of_char c - 0x30"

definition ParseFloat :: "string \<Rightarrow> (float64 \<times> NumError option) option" where
  \<comment> \<open>\<open>strconv.ParseFloat(s, 64)\<close> on the strings this program passes to it: the empty
      string and the strings of one UTF-8 sequence (or one invalid byte). Such a string is
      a number only when it is one decimal digit; every other one is a syntax error.
      Longer strings are outside the modelled fragment (\<open>None\<close>).\<close>
  "ParseFloat s =
     (if s = [] then Some (zero64, Some ErrSyntax)
      else if rune_size s = length s
      then (if length s = 1 \<and> is_digit (hd s)
            then Some (f64_of_nat (digit_value (hd s)), None)
            else Some (zero64, Some ErrSyntax))
      else None)"

section \<open>The program\<close>

datatype error =
    ErrInvalidExpression
  | ErrDivisionByZero
  | ErrExpressionSyntax
  | ErrNotPostMethod
  | ErrInternalServerError

definition operations :: "string \<rightharpoonup> int" where
  "operations = [''+'' \<mapsto> 1, ''-'' \<mapsto> 1, ''*'' \<mapsto> 2, ''/'' \<mapsto> 2]"

definition isOperator :: "string \<Rightarrow> bool" where
  "isOperator s = (case operations s of Some v \<Rightarrow> True | None \<Rightarrow> False)"

definition precedence :: "string \<Rightarrow> int" where
  \<comment> \<open>A key that is not in the map reads as the zero value.\<close>
  "precedence op = (case operations op of Some prio \<Rightarrow> prio | None \<Rightarrow> 0)"

subsection \<open>convertToPostfix\<close>

text \<open>
  The state of the conversion is the pair of the slices \<open>output\<close> and \<open>stack\<close>. A loop
  or a loop body yields \<open>Inl r\<close> when it executes \<open>return r\<close>, and \<open>Inr\<close> of the
  state it leaves otherwise.
\<close>

type_synonym conv_state = "string list \<times> string list"

type_synonym conv_result = "string list \<times> error option"

function pop_to_paren :: "string list \<Rightarrow> string list \<Rightarrow> conv_state option" where
  \<comment> \<open>The loop of lines 64 to 67.\<close>
  "pop_to_paren output stack =
     (if 0 < len stack
      then do {
        top \<leftarrow> index stack (len stack - 1);
        if top \<noteq> ''(''
        then do {
          top' \<leftarrow> index stack (len stack - 1);
          stack' \<leftarrow> slice_to stack (len stack - 1);
          pop_to_paren (output @ [top']) stack'
        }
        else Some (output, stack)
      }
      else Some (output, stack))"
  by pat_completeness auto
termination
  by (relation "measure (\<lambda>(output, stack). length stack)")
     (auto simp: slice_to_def len_def neq_Nil_conv split: if_splits)

function pop_operators :: "string \<Rightarrow> string list \<Rightarrow> string list \<Rightarrow> conv_state option" where
  \<comment> \<open>The loop of lines 73 to 76.\<close>
  "pop_operators token output stack =
     (if 0 < len stack
      then do {
        top \<leftarrow> index stack (len stack - 1);
        if top \<noteq> ''('' \<and> precedence token \<le> precedence top
        then do {
          top' \<leftarrow> index stack (len stack - 1);
          stack' \<leftarrow> slice_to stack (len stack - 1);
          pop_operators token (output @ [top']) stack'
        }
        else Some (output, stack)
      }
      else Some (output, stack))"
  by pat_completeness auto
termination
  by (relation "measure (\<lambda>(token, output, stack). length stack)")
     (auto simp: slice_to_def len_def neq_Nil_conv split: if_splits)

definition unmatched :: "string list \<Rightarrow> bool option" where
  \<comment> \<open>The condition of line 68.\<close>
  "unmatched stack =
     (if len stack = 0 then Some True
      else do { top \<leftarrow> index stack (len stack - 1); Some (top \<noteq> ''('') })"

definition convert_token ::
  "string \<Rightarrow> string list \<Rightarrow> string list \<Rightarrow> (conv_result + conv_state) option" where
  \<comment> \<open>The body of the loop of lines 60 to 81, for one token.\<close>
  "convert_token token output stack =
     (if token = ''('' then Some (Inr (output, stack @ [token]))
      else if token = '')''
      then do {
        (output', stack') \<leftarrow> pop_to_paren output stack;
        bad \<leftarrow> unmatched stack';
        if bad then Some (Inl ([], Some ErrExpressionSyntax))
        else do {
          stack'' \<leftarrow> slice_to stack' (len stack' - 1);
          Some (Inr (output', stack''))
        }
      }
      else if isOperator token
      then do {
        (output', stack') \<leftarrow> pop_operators token output stack;
        Some (Inr (output', stack' @ [token]))
      }
      else Some (Inr (output @ [token], stack)))"

fun convert_tokens ::
  "string list \<Rightarrow> string list \<Rightarrow> string list \<Rightarrow> (conv_result + conv_state) option" where
  \<comment> \<open>The loop of lines 60 to 81 over the tokens still to read.\<close>
  "convert_tokens [] output stack = Some (Inr (output, stack))"
| "convert_tokens (token # tokens) output stack =
     do {
       r \<leftarrow> convert_token token output stack;
       case r of
         Inl ret \<Rightarrow> Some (Inl ret)
       | Inr (output', stack') \<Rightarrow> convert_tokens tokens output' stack'
     }"

function drain :: "string list \<Rightarrow> string list \<Rightarrow> (conv_result + conv_state) option" where
  \<comment> \<open>The loop of lines 82 to 88.\<close>
  "drain output stack =
     (if 0 < len stack
      then do {
        top \<leftarrow> index stack (len stack - 1);
        if top = ''('' then Some (Inl ([], Some ErrExpressionSyntax))
        else do {
          top' \<leftarrow> index stack (len stack - 1);
          stack' \<leftarrow> slice_to stack (len stack - 1);
          drain (output @ [top']) stack'
        }
      }
      else Some (Inr (output, stack)))"
  by pat_completeness auto
termination
  by (relation "measure (\<lambda>(output, stack). length stack)")
     (auto simp: slice_to_def len_def neq_Nil_conv split: if_splits)

definition convertToPostfix :: "string list \<Rightarrow> conv_result option" where
  "convertToPostfix tokens =
     do {
       r \<leftarrow> convert_tokens tokens [] [];
       case r of
         Inl ret \<Rightarrow> Some ret
       | Inr (output, stack) \<Rightarrow>
           do {
             r' \<leftarrow> drain output stack;
             case r' of
               Inl ret \<Rightarrow> Some ret
             | Inr (output', stack') \<Rightarrow> Some (output', None)
           }
     }"

subsection \<open>calculate\<close>

type_synonym calc_result = "float64 \<times> error option"

definition calculate_token :: "string \<Rightarrow> float64 list \<Rightarrow> (calc_result + float64 list) option" where
  \<comment> \<open>The body of the loop of lines 95 to 125, for one token.\<close>
  "calculate_token token stack =
     (if isOperator token
      then (if len stack < 2 then Some (Inl (zero64, Some ErrExpressionSyntax))
            else do {
              b \<leftarrow> index stack (len stack - 1);
              a \<leftarrow> index stack (len stack - 2);
              stack' \<leftarrow> slice_to stack (len stack - 2);
              if token = ''+'' then Some (Inr (stack' @ [f64_add a b]))
              else if token = ''-'' then Some (Inr (stack' @ [f64_sub a b]))
              else if token = ''*'' then Some (Inr (stack' @ [f64_mul a b]))
              else if token = ''/''
              then (if f64_eq b zero64 then Some (Inl (zero64, Some ErrDivisionByZero))
                    else Some (Inr (stack' @ [f64_div a b])))
              else Some (Inl (zero64, Some ErrExpressionSyntax))
            })
      else do {
        (v, err) \<leftarrow> ParseFloat token;
        if err \<noteq> None then Some (Inl (zero64, Some ErrExpressionSyntax))
        else Some (Inr (stack @ [v]))
      })"

fun calculate_tokens :: "string list \<Rightarrow> float64 list \<Rightarrow> (calc_result + float64 list) option" where
  \<comment> \<open>The loop of lines 95 to 125 over the tokens still to read.\<close>
  "calculate_tokens [] stack = Some (Inr stack)"
| "calculate_tokens (token # postfix) stack =
     do {
       r \<leftarrow> calculate_token token stack;
       case r of Inl ret \<Rightarrow> Some (Inl ret) | Inr stack' \<Rightarrow> calculate_tokens postfix stack'
     }"

definition calculate_end :: "float64 list \<Rightarrow> calc_result option" where
  \<comment> \<open>Lines 126 to 129, on the stack the loop leaves.\<close>
  "calculate_end stack =
     (if len stack \<noteq> 1 then Some (zero64, Some ErrInvalidExpression)
      else do { v \<leftarrow> index stack 0; Some (v, None) })"

definition calculate :: "string list \<Rightarrow> calc_result option" where
  "calculate postfix =
     do {
       r \<leftarrow> calculate_tokens postfix [];
       case r of Inl ret \<Rightarrow> Some ret | Inr stack \<Rightarrow> calculate_end stack
     }"

subsection \<open>Calc\<close>

definition tokens_of :: "string \<Rightarrow> string list" where
  \<comment> \<open>Line 137.\<close>
  "tokens_of expression = Split (ReplaceAll expression '' '' []) []"

definition Calc :: "string \<Rightarrow> calc_result option" where
  "Calc expression =
     (if len expression < 3 then Some (zero64, Some ErrExpressionSyntax)
      else do {
        (postfix, err) \<leftarrow> convertToPostfix (tokens_of expression);
        if err \<noteq> None then Some (zero64, err)
        else do {
          (result, err') \<leftarrow> calculate postfix;
          if err' \<noteq> None then Some (zero64, err')
          else Some (result, None)
        }
      })"

section \<open>The package-level variables as state\<close>

text \<open>
  The functions read variables of the package: the map \<open>operations\<close> and the error
  values, all declared with \<open>var\<close>. Here they are a store that every call takes and
  returns: a function yields its results together with the store it leaves. The
  library calls, the index and slice expressions and the loop of lines 64 to 67 touch
  no package variable and are used as above. An operand of \<open>&&\<close> is evaluated only
  when the one before it is true, and the operands of \<open><=\<close> from left to right.
\<close>

record globals =
  var_ErrInvalidExpression :: error
  var_ErrDivisionByZero :: error
  var_ErrExpressionSyntax :: error
  var_ErrNotPostMethod :: error
  var_ErrInternalServerError :: error
  var_operations :: "string \<rightharpoonup> int"

definition initial :: globals where
  "initial =
     \<lparr>var_ErrInvalidExpression = ErrInvalidExpression,
      var_ErrDivisionByZero = ErrDivisionByZero,
      var_ErrExpressionSyntax = ErrExpressionSyntax,
      var_ErrNotPostMethod = ErrNotPostMethod,
      var_ErrInternalServerError = ErrInternalServerError,
      var_operations = operations\<rparr>"

definition isOperator_st :: "string \<Rightarrow> globals \<Rightarrow> (bool \<times> globals) option" where
  "isOperator_st s g =
     Some ((case var_operations g s of Some v \<Rightarrow> True | None \<Rightarrow> False), g)"

definition precedence_st :: "string \<Rightarrow> globals \<Rightarrow> (int \<times> globals) option" where
  "precedence_st op g =
     Some ((case var_operations g op of Some prio \<Rightarrow> prio | None \<Rightarrow> 0), g)"

function pop_operators_st ::
  "string \<Rightarrow> string list \<Rightarrow> string list \<Rightarrow> globals \<Rightarrow> (conv_state \<times> globals) option" where
  "pop_operators_st token output stack g =
     (if 0 < len stack
      then do {
        top \<leftarrow> index stack (len stack - 1);
        if top \<noteq> ''(''
        then do {
          (p, g1) \<leftarrow> precedence_st token g;
          top1 \<leftarrow> index stack (len stack - 1);
          (q, g2) \<leftarrow> precedence_st top1 g1;
          if p \<le> q
          then do {
            top' \<leftarrow> index stack (len stack - 1);
            stack' \<leftarrow> slice_to stack (len stack - 1);
            pop_operators_st token (output @ [top']) stack' g2
          }
          else Some ((output, stack), g2)
        }
        else Some ((output, stack), g)
      }
      else Some ((output, stack), g))"
  by pat_completeness auto
termination
  by (relation "measure (\<lambda>(token, output, stack, g). length stack)")
     (auto simp: slice_to_def len_def neq_Nil_conv split: if_splits)

definition convert_token_st ::
  "string \<Rightarrow> string list \<Rightarrow> string list \<Rightarrow> globals
   \<Rightarrow> ((conv_result + conv_state) \<times> globals) option" where
  "convert_token_st token output stack g =
     (if token = ''('' then Some (Inr (output, stack @ [token]), g)
      else if token = '')''
      then do {
        (output', stack') \<leftarrow> pop_to_paren output stack;
        bad \<leftarrow> unmatched stack';
        if bad then Some (Inl ([], Some (var_ErrExpressionSyntax g)), g)
        else do {
          stack'' \<leftarrow> slice_to stack' (len stack' - 1);
          Some (Inr (output', stack''), g)
        }
      }
      else do {
        (is_op, g1) \<leftarrow> isOperator_st token g;
        if is_op
        then do {
          ((output', stack'), g2) \<leftarrow> pop_operators_st token output stack g1;
          Some (Inr (output', stack' @ [token]), g2)
        }
        else Some (Inr (output @ [token], stack), g1)
      })"

fun convert_tokens_st ::
  "string list \<Rightarrow> string list \<Rightarrow> string list \<Rightarrow> globals
   \<Rightarrow> ((conv_result + conv_state) \<times> globals) option" where
  "convert_tokens_st [] output stack g = Some (Inr (output, stack), g)"
| "convert_tokens_st (token # tokens) output stack g =
     do {
       (r, g1) \<leftarrow> convert_token_st token output stack g;
       case r of
         Inl ret \<Rightarrow> Some (Inl ret, g1)
       | Inr (output', stack') \<Rightarrow> convert_tokens_st tokens output' stack' g1
     }"

function drain_st ::
  "string list \<Rightarrow> string list \<Rightarrow> globals \<Rightarrow> ((conv_result + conv_state) \<times> globals) option" where
  "drain_st output stack g =
     (if 0 < len stack
      then do {
        top \<leftarrow> index stack (len stack - 1);
        if top = ''('' then Some (Inl ([], Some (var_ErrExpressionSyntax g)), g)
        else do {
          top' \<leftarrow> index stack (len stack - 1);
          stack' \<leftarrow> slice_to stack (len stack - 1);
          drain_st (output @ [top']) stack' g
        }
      }
      else Some (Inr (output, stack), g))"
  by pat_completeness auto
termination
  by (relation "measure (\<lambda>(output, stack, g). length stack)")
     (auto simp: slice_to_def len_def neq_Nil_conv split: if_splits)

definition convertToPostfix_st :: "string list \<Rightarrow> globals \<Rightarrow> (conv_result \<times> globals) option" where
  "convertToPostfix_st tokens g =
     do {
       (r, g1) \<leftarrow> convert_tokens_st tokens [] [] g;
       case r of
         Inl ret \<Rightarrow> Some (ret, g1)
       | Inr (output, stack) \<Rightarrow>
           do {
             (r', g2) \<leftarrow> drain_st output stack g1;
             case r' of
               Inl ret \<Rightarrow> Some (ret, g2)
             | Inr (output', stack') \<Rightarrow> Some ((output', None), g2)
           }
     }"

definition calculate_token_st ::
  "string \<Rightarrow> float64 list \<Rightarrow> globals \<Rightarrow> ((calc_result + float64 list) \<times> globals) option" where
  "calculate_token_st token stack g =
     do {
       (is_op, g1) \<leftarrow> isOperator_st token g;
       if is_op
       then (if len stack < 2 then Some (Inl (zero64, Some (var_ErrExpressionSyntax g1)), g1)
             else do {
               b \<leftarrow> index stack (len stack - 1);
               a \<leftarrow> index stack (len stack - 2);
               stack' \<leftarrow> slice_to stack (len stack - 2);
               if token = ''+'' then Some (Inr (stack' @ [f64_add a b]), g1)
               else if token = ''-'' then Some (Inr (stack' @ [f64_sub a b]), g1)
               else if token = ''*'' then Some (Inr (stack' @ [f64_mul a b]), g1)
               else if token = ''/''
               then (if f64_eq b zero64
                     then Some (Inl (zero64, Some (var_ErrDivisionByZero g1)), g1)
                     else Some (Inr (stack' @ [f64_div a b]), g1))
               else Some (Inl (zero64, Some (var_ErrExpressionSyntax g1)), g1)
             })
       else do {
         (v, err) \<leftarrow> ParseFloat token;
         if err \<noteq> None then Some (Inl (zero64, Some (var_ErrExpressionSyntax g1)), g1)
         else Some (Inr (stack @ [v]), g1)
       }
     }"

fun calculate_tokens_st ::
  "string list \<Rightarrow> float64 list \<Rightarrow> globals \<Rightarrow> ((calc_result + float64 list) \<times> globals) option" where
  "calculate_tokens_st [] stack g = Some (Inr stack, g)"
| "calculate_tokens_st (token # postfix) stack g =
     do {
       (r, g1) \<leftarrow> calculate_token_st token stack g;
       case r of
         Inl ret \<Rightarrow> Some (Inl ret, g1)
       | Inr stack' \<Rightarrow> calculate_tokens_st postfix stack' g1
     }"

definition calculate_end_st :: "float64 list \<Rightarrow> globals \<Rightarrow> (calc_result \<times> globals) option" where
  "calculate_end_st stack g =
     (if len stack \<noteq> 1 then Some ((zero64, Some (var_ErrInvalidExpression g)), g)
      else do { v \<leftarrow> index stack 0; Some ((v, None), g) })"

definition calculate_st :: "string list \<Rightarrow> globals \<Rightarrow> (calc_result \<times> globals) option" where
  "calculate_st postfix g =
     do {
       (r, g1) \<leftarrow> calculate_tokens_st postfix [] g;
       case r of Inl ret \<Rightarrow> Some (ret, g1) | Inr stack \<Rightarrow> calculate_end_st stack g1
     }"

definition Calc_st :: "string \<Rightarrow> globals \<Rightarrow> (calc_result \<times> globals) option" where
  "Calc_st expression g =
     (if len expression < 3 then Some ((zero64, Some (var_ErrExpressionSyntax g)), g)
      else do {
        ((postfix, err), g1) \<leftarrow> convertToPostfix_st (tokens_of expression) g;
        if err \<noteq> None then Some ((zero64, err), g1)
        else do {
          ((result, err'), g2) \<leftarrow> calculate_st postfix g1;
          if err' \<noteq> None then Some ((zero64, err'), g2)
          else Some ((result, None), g2)
        }
      })"

section \<open>Properties\<close>

subsection \<open>The loops in closed form\<close>

text \<open>
  The recursive equations of the loops are not rewrite rules: each loop is used through
  the list it computes.
\<close>

declare pop_to_paren.simps [simp del] pop_operators.simps [simp del] drain.simps [simp del]
declare explode.simps [simp del] replace_from.simps [simp del] split_on.simps [simp del]
declare bits.simps [simp del]

lemma len_snoc: "len (xs @ [x]) = len xs + 1"
  by (simp add: len_def)

lemma len_nonneg: "0 \<le> len xs"
  by (simp add: len_def)

lemma len_Nil: "len [] = 0"
  by (simp add: len_def)

lemma index_top: "index (xs @ [x]) (len xs) = Some x"
  by (simp add: index_def len_def)

lemma slice_to_top: "slice_to (xs @ [x]) (len xs) = Some xs"
  by (simp add: slice_to_def len_def)

text \<open>
  The loop of a closing parenthesis moves the stack's elements above the topmost
  \<open>(\<close> to the output, the top first.
\<close>

lemma pop_to_paren_eq:
  "pop_to_paren out stack =
     Some (out @ takeWhile (\<lambda>t. t \<noteq> ''('') (rev stack),
           rev (dropWhile (\<lambda>t. t \<noteq> ''('') (rev stack)))"
proof (induction stack arbitrary: out rule: rev_induct)
  case Nil
  show ?case by (subst pop_to_paren.simps) (simp add: len_Nil)
next
  case (snoc x xs)
  show ?case
    by (subst pop_to_paren.simps)
       (simp add: len_snoc len_nonneg index_top slice_to_top snoc.IH)
qed

lemma pop_operators_eq:
  "pop_operators token out stack =
     Some (out @ takeWhile (\<lambda>t. t \<noteq> ''('' \<and> precedence token \<le> precedence t) (rev stack),
           rev (dropWhile (\<lambda>t. t \<noteq> ''('' \<and> precedence token \<le> precedence t) (rev stack)))"
proof (induction stack arbitrary: out rule: rev_induct)
  case Nil
  show ?case by (subst pop_operators.simps) (simp add: len_Nil)
next
  case (snoc x xs)
  show ?case
    by (subst pop_operators.simps)
       (simp add: len_snoc len_nonneg index_top slice_to_top snoc.IH)
qed

lemma drain_eq:
  "drain out stack =
     (if ''('' \<in> set stack then Some (Inl ([], Some ErrExpressionSyntax))
      else Some (Inr (out @ rev stack, [])))"
proof (induction stack arbitrary: out rule: rev_induct)
  case Nil
  show ?case by (subst drain.simps) (simp add: len_Nil)
next
  case (snoc x xs)
  show ?case
    by (subst drain.simps)
       (auto simp add: len_snoc len_nonneg index_top slice_to_top snoc.IH)
qed

lemma unmatched_eq:
  "unmatched (rev (dropWhile (\<lambda>t. t \<noteq> ''('') (rev stack))) = Some (''('' \<notin> set stack)"
proof (cases "dropWhile (\<lambda>t. t \<noteq> ''('') (rev stack)")
  case Nil
  then have "''('' \<notin> set stack"
    by (auto simp: dropWhile_eq_Nil_conv)
  then show ?thesis unfolding Nil by (simp add: unmatched_def len_Nil)
next
  case (Cons y ys)
  then have y: "y = ''(''"
    using hd_dropWhile [of "\<lambda>t. t \<noteq> ''(''" "rev stack"] by simp
  have "y \<in> set (rev stack)"
    using Cons set_dropWhileD [of y "\<lambda>t. t \<noteq> ''(''" "rev stack"] by simp
  then have mem: "''('' \<in> set stack" using y by simp
  have pos: "len (rev ys) + 1 \<noteq> 0" using len_nonneg [of "rev ys"] by simp
  show ?thesis
    using mem by (simp add: Cons unmatched_def len_snoc pos index_top y)
qed

lemma slice_to_butlast: "xs \<noteq> [] \<Longrightarrow> slice_to xs (len xs - 1) = Some (butlast xs)"
  by (cases xs rule: rev_cases) (simp_all add: len_snoc slice_to_top)

lemma convert_token_eq:
  "convert_token token out stack =
     (if token = ''('' then Some (Inr (out, stack @ [token]))
      else if token = '')''
      then (if ''('' \<in> set stack
            then Some (Inr (out @ takeWhile (\<lambda>t. t \<noteq> ''('') (rev stack),
                            butlast (rev (dropWhile (\<lambda>t. t \<noteq> ''('') (rev stack)))))
            else Some (Inl ([], Some ErrExpressionSyntax)))
      else if isOperator token
      then Some (Inr (out @ takeWhile (\<lambda>t. t \<noteq> ''('' \<and> precedence token \<le> precedence t) (rev stack),
                      rev (dropWhile (\<lambda>t. t \<noteq> ''('' \<and> precedence token \<le> precedence t) (rev stack))
                      @ [token]))
      else Some (Inr (out @ [token], stack)))"
proof -
  have ne: "''('' \<in> set stack \<Longrightarrow> rev (dropWhile (\<lambda>t. t \<noteq> ''('') (rev stack)) \<noteq> []"
    by (auto simp: dropWhile_eq_Nil_conv)
  show ?thesis
    by (simp add: convert_token_def pop_to_paren_eq pop_operators_eq unmatched_eq
        slice_to_butlast ne)
qed

lemma convert_tokens_append:
  "convert_tokens (xs @ ys) out stack =
     (case convert_tokens xs out stack of
        None \<Rightarrow> None
      | Some (Inl ret) \<Rightarrow> Some (Inl ret)
      | Some (Inr (out', stack')) \<Rightarrow> convert_tokens ys out' stack')"
proof (induction xs arbitrary: out stack)
  case Nil
  show ?case by simp
next
  case (Cons x xs)
  show ?case
    by (cases "convert_token x out stack") (auto simp: Cons.IH split: sum.splits)
qed

lemma calculate_tokens_append:
  "calculate_tokens (xs @ ys) stack =
     (case calculate_tokens xs stack of
        None \<Rightarrow> None
      | Some (Inl ret) \<Rightarrow> Some (Inl ret)
      | Some (Inr stack') \<Rightarrow> calculate_tokens ys stack')"
proof (induction xs arbitrary: stack)
  case Nil
  show ?case by simp
next
  case (Cons x xs)
  show ?case
    by (cases "calculate_token x stack") (auto simp: Cons.IH split: sum.splits)
qed

subsection \<open>One token of the evaluator\<close>

lemma operator_cases: "isOperator token = (token = ''+'' \<or> token = ''-'' \<or> token = ''*'' \<or> token = ''/'')"
  by (auto simp: isOperator_def operations_def)

lemma index_two:
  "index (stack @ [a, b]) (len (stack @ [a, b]) - 1) = Some b"
  "index (stack @ [a, b]) (len (stack @ [a, b]) - 2) = Some a"
  "slice_to (stack @ [a, b]) (len (stack @ [a, b]) - 2) = Some stack"
proof -
  have l: "len (stack @ [a, b]) = len stack + 2" by (simp add: len_def)
  have n: "nat (1 + int (length stack)) = Suc (length stack)" by simp
  show "index (stack @ [a, b]) (len (stack @ [a, b]) - 1) = Some b"
    unfolding l by (simp add: index_def len_def n nth_append)
  show "index (stack @ [a, b]) (len (stack @ [a, b]) - 2) = Some a"
    unfolding l by (simp add: index_def len_def nth_append)
  show "slice_to (stack @ [a, b]) (len (stack @ [a, b]) - 2) = Some stack"
    unfolding l by (simp add: slice_to_def len_def)
qed

lemma len_two: "\<not> len (stack @ [a, b]) < 2"
  by (simp add: len_def)

lemma calculate_token_operator:
  "isOperator token \<Longrightarrow>
   calculate_token token (stack @ [a, b]) =
     (if token = ''+'' then Some (Inr (stack @ [f64_add a b]))
      else if token = ''-'' then Some (Inr (stack @ [f64_sub a b]))
      else if token = ''*'' then Some (Inr (stack @ [f64_mul a b]))
      else if f64_eq b zero64 then Some (Inl (zero64, Some ErrDivisionByZero))
      else Some (Inr (stack @ [f64_div a b])))"
  by (auto simp: calculate_token_def index_two len_two operator_cases)

lemma calculate_token_underflow:
  "isOperator token \<Longrightarrow> length stack < 2 \<Longrightarrow>
   calculate_token token stack = Some (Inl (zero64, Some ErrExpressionSyntax))"
  by (simp add: calculate_token_def len_def)

lemma two_or_more: "2 \<le> length xs \<Longrightarrow> \<exists>ys a b. xs = ys @ [a, b]"
proof (cases xs rule: rev_cases)
  case Nil
  assume "2 \<le> length xs"
  with Nil show ?thesis by simp
next
  case (snoc ys b)
  assume two: "2 \<le> length xs"
  show ?thesis
  proof (cases ys rule: rev_cases)
    case Nil
    with snoc two show ?thesis by simp
  next
    case (snoc zs a)
    with \<open>xs = ys @ [b]\<close> have "xs = zs @ [a, b]" by simp
    then show ?thesis by blast
  qed
qed

lemma f64_eq_zero: "f64_eq b zero64 = (\<exists>s e. b = Finite s 0 e)"
  by (cases b) (auto simp: zero64_def scaled_def)


lemma calculate_token_Inl:
  "calculate_token token stack = Some (Inl (v, e)) \<Longrightarrow>
   v = zero64 \<and> (e = Some ErrExpressionSyntax \<or> e = Some ErrDivisionByZero)"
  by (auto simp: calculate_token_def split: if_splits bind_splits prod.splits)

lemma calculate_tokens_Inl:
  "calculate_tokens postfix stack = Some (Inl (v, e)) \<Longrightarrow>
   v = zero64 \<and> (e = Some ErrExpressionSyntax \<or> e = Some ErrDivisionByZero)"
proof (induction postfix arbitrary: stack)
  case Nil
  then show ?case by simp
next
  case (Cons token postfix)
  then show ?case
    by (auto split: bind_splits sum.splits dest: calculate_token_Inl)
qed

lemma calculate_error:
  "calculate postfix = Some (v, Some err) \<Longrightarrow>
   v = zero64 \<and> (err = ErrExpressionSyntax \<or> err = ErrDivisionByZero \<or> err = ErrInvalidExpression)"
  by (auto simp: calculate_def calculate_end_def
      split: bind_splits sum.splits if_splits dest: calculate_tokens_Inl)

subsection \<open>UTF-8 sequences and the tokens of an expression\<close>

lemma list_shape:
  obtains "cs = []" | x where "cs = [x]" | x y where "cs = [x, y]"
  | x y z zs where "cs = x # y # z # zs"
proof (cases cs)
  case Nil
  then show ?thesis using that by blast
next
  case c1: (Cons x xs)
  show ?thesis
  proof (cases xs)
    case Nil
    with c1 show ?thesis using that by blast
  next
    case c2: (Cons y ys)
    show ?thesis
    proof (cases ys)
      case Nil
      with c1 c2 show ?thesis using that by blast
    next
      case (Cons z zs)
      with c1 c2 show ?thesis using that by blast
    qed
  qed
qed

lemma multi_size_pos: "Suc 0 \<le> multi_size sz lo hi cs"
  by (simp add: multi_size_def)

lemma multi_size_le:
  "multi_size 2 lo hi cs \<le> Suc (length cs)"
  "multi_size 3 lo hi cs \<le> Suc (length cs)"
  "multi_size 4 lo hi cs \<le> Suc (length cs)"
  by (cases cs rule: list_shape; simp add: multi_size_def)+

lemma multi_size_take:
  "multi_size 2 lo hi (take (multi_size 2 lo hi cs - Suc 0) cs) = multi_size 2 lo hi cs"
  "multi_size 3 lo hi (take (multi_size 3 lo hi cs - Suc 0) cs) = multi_size 3 lo hi cs"
  "multi_size 4 lo hi (take (multi_size 4 lo hi cs - Suc 0) cs) = multi_size 4 lo hi cs"
  by (cases cs rule: list_shape; simp add: multi_size_def)+

lemma lead_size_bounds:
  "Suc 0 \<le> lead_size b cs" "lead_size b cs \<le> Suc (length cs)"
  by (simp_all add: lead_size_def multi_size_pos multi_size_le)

lemma lead_size_take:
  "lead_size b (take (lead_size b cs - Suc 0) cs) = lead_size b cs"
  by (simp add: lead_size_def multi_size_take)

lemma rune_size_take:
  "rune_size (take (rune_size s) s) = rune_size s"
proof (cases s)
  case Nil
  then show ?thesis by simp
next
  case (Cons c cs)
  have "take (lead_size (of_char c) cs) (c # cs) = c # take (lead_size (of_char c) cs - Suc 0) cs"
    using lead_size_bounds(1) [of "of_char c" cs] by (cases "lead_size (of_char c) cs") auto
  then show ?thesis by (simp add: Cons lead_size_take)
qed

lemma rune_size_le: "rune_size s \<le> length s"
  by (cases s) (simp_all add: lead_size_bounds)

lemma rune_size_pos: "s \<noteq> [] \<Longrightarrow> 0 < rune_size s"
  using lead_size_bounds(1) by (cases s) (auto simp: Suc_le_eq)

lemma explode_single:
  "t \<in> set (explode s) \<Longrightarrow> t \<noteq> [] \<and> rune_size t = length t"
proof (induction s arbitrary: t rule: explode.induct)
  case (1 s)
  show ?case
  proof (cases "s = []")
    case True
    with "1.prems" show ?thesis by (simp add: explode.simps)
  next
    case False
    from "1.prems" False
    have "t = take (rune_size s) s \<or> t \<in> set (explode (drop (rune_size s) s))"
      by (subst (asm) explode.simps) simp
    then show ?thesis
    proof
      assume t: "t = take (rune_size s) s"
      have "length t = rune_size s" using rune_size_le [of s] by (simp add: t)
      moreover have "rune_size t = rune_size s" by (simp add: t rune_size_take)
      ultimately show ?thesis using rune_size_pos [OF False] by auto
    next
      assume "t \<in> set (explode (drop (rune_size s) s))"
      with "1.IH" [OF False] show ?thesis .
    qed
  qed
qed

lemma concat_explode: "concat (explode s) = s"
proof (induction s rule: explode.induct)
  case (1 s)
  show ?case
  proof (cases "s = []")
    case True
    then show ?thesis by (simp add: explode.simps)
  next
    case False
    have "concat (explode s) = take (rune_size s) s @ concat (explode (drop (rune_size s) s))"
      using False by (subst explode.simps) simp
    with "1.IH" [OF False] show ?thesis by simp
  qed
qed

lemma explode_ascii:
  "list_all (\<lambda>c. of_char c < (128::nat)) s \<Longrightarrow> explode s = map (\<lambda>c. [c]) s"
proof (induction s)
  case Nil
  show ?case by (simp add: explode.simps)
next
  case (Cons c cs)
  then have "rune_size (c # cs) = 1" by (simp add: lead_size_def)
  then have "explode (c # cs) = [c] # explode cs"
    by (subst explode.simps) simp
  with Cons show ?case by simp
qed

lemma replace_from_char:
  "replace_from s [c] [] = filter (\<lambda>x. x \<noteq> c) s"
proof (induction s)
  case Nil
  show ?case by (simp add: replace_from.simps)
next
  case (Cons x xs)
  show ?case
    by (subst replace_from.simps) (auto simp: Cons.IH)
qed

lemma tokens_of_eq: "tokens_of e = explode (filter (\<lambda>c. c \<noteq> CHR '' '') e)"
  by (simp add: tokens_of_def Split_def ReplaceAll_def replace_from_char)

subsection \<open>Every call returns\<close>

lemma convert_token_Some:
  "\<exists>r. convert_token token out stack = Some r"
  by (simp add: convert_token_eq)

lemma convert_token_Inl:
  "convert_token token out stack = Some (Inl ret) \<Longrightarrow> ret = ([], Some ErrExpressionSyntax)"
  by (auto simp: convert_token_eq split: if_splits)

lemma convert_token_set:
  assumes "convert_token token out stack = Some (Inr (out', stack'))"
  shows "set out' \<union> set stack' \<subseteq> insert token (set out \<union> set stack)"
proof -
  have 1: "set (takeWhile P (rev stack)) \<subseteq> set stack" for P
    using set_takeWhileD [of _ P "rev stack"] by auto
  have 2: "set (dropWhile P (rev stack)) \<subseteq> set stack" for P
    using set_dropWhileD [of _ P "rev stack"] by auto
  have 3: "set (butlast (rev (dropWhile P (rev stack)))) \<subseteq> set stack" for P
    using 2 [of P] in_set_butlastD [of _ "rev (dropWhile P (rev stack))"] by auto
  show ?thesis
  proof (cases "token = ''(''")
    case True
    with assms show ?thesis by (auto simp: convert_token_eq)
  next
    case no_open: False
    show ?thesis
    proof (cases "token = '')''")
      case True
      with no_open assms have
        "out' = out @ takeWhile (\<lambda>t. t \<noteq> ''('') (rev stack)" and
        "stack' = butlast (rev (dropWhile (\<lambda>t. t \<noteq> ''('') (rev stack)))"
        by (auto simp: convert_token_eq split: if_splits)
      with 1 [of "\<lambda>t. t \<noteq> ''(''"] 3 [of "\<lambda>t. t \<noteq> ''(''"] show ?thesis by auto
    next
      case no_close: False
      show ?thesis
      proof (cases "isOperator token")
        case True
        with no_open no_close assms have
          "out' = out @ takeWhile (\<lambda>t. t \<noteq> ''('' \<and> precedence token \<le> precedence t) (rev stack)" and
          "stack' = rev (dropWhile (\<lambda>t. t \<noteq> ''('' \<and> precedence token \<le> precedence t) (rev stack)) @ [token]"
          by (auto simp: convert_token_eq)
        with 1 [of "\<lambda>t. t \<noteq> ''('' \<and> precedence token \<le> precedence t"]
          2 [of "\<lambda>t. t \<noteq> ''('' \<and> precedence token \<le> precedence t"]
        show ?thesis by auto
      next
        case False
        with no_open no_close assms show ?thesis by (auto simp: convert_token_eq)
      qed
    qed
  qed
qed

lemma convert_tokens_cases:
  "(convert_tokens toks out stack = Some (Inl ([], Some ErrExpressionSyntax)))
   \<or> (\<exists>out' stack'. convert_tokens toks out stack = Some (Inr (out', stack'))
        \<and> set out' \<union> set stack' \<subseteq> set toks \<union> set out \<union> set stack)"
proof (induction toks arbitrary: out stack)
  case Nil
  show ?case by simp
next
  case (Cons token toks)
  obtain r where r: "convert_token token out stack = Some r"
    using convert_token_Some by blast
  show ?case
  proof (cases r)
    case (Inl ret)
    with r have "ret = ([], Some ErrExpressionSyntax)" using convert_token_Inl by blast
    with r Inl show ?thesis by simp
  next
    case (Inr st)
    obtain out1 stack1 where st: "st = (out1, stack1)" by (cases st)
    from r Inr st have sub: "set out1 \<union> set stack1 \<subseteq> insert token (set out \<union> set stack)"
      using convert_token_set by blast
    from Cons.IH [of out1 stack1] show ?thesis
    proof
      assume "convert_tokens toks out1 stack1 = Some (Inl ([], Some ErrExpressionSyntax))"
      with r Inr st show ?thesis by simp
    next
      assume "\<exists>out' stack'. convert_tokens toks out1 stack1 = Some (Inr (out', stack'))
        \<and> set out' \<union> set stack' \<subseteq> set toks \<union> set out1 \<union> set stack1"
      then obtain out' stack' where
        a: "convert_tokens toks out1 stack1 = Some (Inr (out', stack'))" and
        b: "set out' \<union> set stack' \<subseteq> set toks \<union> set out1 \<union> set stack1" by blast
      from b sub have "set out' \<union> set stack' \<subseteq> set (token # toks) \<union> set out \<union> set stack"
        by auto
      with a r Inr st show ?thesis by simp
    qed
  qed
qed

lemma convertToPostfix_cases:
  "convertToPostfix toks = Some ([], Some ErrExpressionSyntax)
   \<or> (\<exists>postfix. convertToPostfix toks = Some (postfix, None) \<and> set postfix \<subseteq> set toks)"
proof -
  from convert_tokens_cases [of toks "[]" "[]"] show ?thesis
  proof
    assume "convert_tokens toks [] [] = Some (Inl ([], Some ErrExpressionSyntax))"
    then show ?thesis by (simp add: convertToPostfix_def)
  next
    assume "\<exists>out' stack'. convert_tokens toks [] [] = Some (Inr (out', stack'))
        \<and> set out' \<union> set stack' \<subseteq> set toks \<union> set [] \<union> set []"
    then obtain out' stack' where
      a: "convert_tokens toks [] [] = Some (Inr (out', stack'))" and
      b: "set out' \<union> set stack' \<subseteq> set toks" by auto
    show ?thesis
    proof (cases "''('' \<in> set stack'")
      case True
      with a show ?thesis by (simp add: convertToPostfix_def drain_eq)
    next
      case False
      with a have "convertToPostfix toks = Some (out' @ rev stack', None)"
        by (simp add: convertToPostfix_def drain_eq)
      with b show ?thesis by auto
    qed
  qed
qed

lemma ParseFloat_Some:
  "rune_size token = length token \<Longrightarrow> \<exists>r. ParseFloat token = Some r"
  by (simp add: ParseFloat_def)

lemma calculate_token_Some:
  assumes "rune_size token = length token"
  shows "\<exists>r. calculate_token token stack = Some r"
proof (cases "isOperator token")
  case False
  from ParseFloat_Some [OF assms] obtain v err where "ParseFloat token = Some (v, err)"
    by auto
  with False show ?thesis by (simp add: calculate_token_def)
next
  case True
  show ?thesis
  proof (cases "2 \<le> length stack")
    case False
    then have "length stack < 2" by simp
    with True show ?thesis by (simp add: calculate_token_underflow)
  next
    case two: True
    then obtain ys a b where "stack = ys @ [a, b]" using two_or_more by blast
    with True show ?thesis by (simp add: calculate_token_operator)
  qed
qed

lemma calculate_tokens_Some:
  "list_all (\<lambda>t. rune_size t = length t) postfix \<Longrightarrow>
   \<exists>r. calculate_tokens postfix stack = Some r"
proof (induction postfix arbitrary: stack)
  case Nil
  show ?case by simp
next
  case (Cons token postfix)
  then have tok: "rune_size token = length token"
    and rest: "list_all (\<lambda>t. rune_size t = length t) postfix" by simp_all
  obtain r where r: "calculate_token token stack = Some r"
    using calculate_token_Some [OF tok] by blast
  show ?case
  proof (cases r)
    case (Inl ret)
    with r show ?thesis by simp
  next
    case (Inr stack')
    with r Cons.IH [OF rest, of stack'] show ?thesis by simp
  qed
qed

lemma calculate_Some:
  assumes "list_all (\<lambda>t. rune_size t = length t) postfix"
  shows "\<exists>v err. calculate postfix = Some (v, err)"
proof -
  obtain r where r: "calculate_tokens postfix [] = Some r"
    using calculate_tokens_Some [OF assms] by blast
  show ?thesis
  proof (cases r)
    case (Inl ret)
    with r show ?thesis by (cases ret) (simp add: calculate_def)
  next
    case (Inr stack)
    show ?thesis
    proof (cases "length stack = 1")
      case True
      then have "index stack 0 = Some (stack ! 0)" by (simp add: index_def len_def)
      with r Inr True show ?thesis by (simp add: calculate_def calculate_end_def len_def)
    next
      case False
      with r Inr show ?thesis by (simp add: calculate_def calculate_end_def len_def)
    qed
  qed
qed

lemma calculate_cases:
  assumes "list_all (\<lambda>t. rune_size t = length t) postfix"
  shows "\<exists>v err. calculate postfix = Some (v, err)
     \<and> (err = None \<or> err = Some ErrExpressionSyntax \<or> err = Some ErrDivisionByZero
         \<or> err = Some ErrInvalidExpression)"
proof -
  obtain v err where c: "calculate postfix = Some (v, err)"
    using calculate_Some [OF assms] by blast
  show ?thesis
  proof (cases err)
    case None
    with c show ?thesis by simp
  next
    case (Some e)
    with c calculate_error [of postfix v e] show ?thesis by auto
  qed
qed

lemma tokens_single: "list_all (\<lambda>t. t \<noteq> [] \<and> rune_size t = length t) (tokens_of e)"
  by (auto simp: list_all_iff tokens_of_eq dest: explode_single)

lemma Calc_returns:
  "\<exists>v err. Calc expression = Some (v, err)
     \<and> (err = None \<or> err = Some ErrExpressionSyntax \<or> err = Some ErrDivisionByZero
         \<or> err = Some ErrInvalidExpression)"
proof (cases "len expression < 3")
  case True
  then show ?thesis by (simp add: Calc_def)
next
  case False
  from convertToPostfix_cases [of "tokens_of expression"] show ?thesis
  proof
    assume "convertToPostfix (tokens_of expression) = Some ([], Some ErrExpressionSyntax)"
    with False show ?thesis by (simp add: Calc_def)
  next
    assume "\<exists>postfix. convertToPostfix (tokens_of expression) = Some (postfix, None)
      \<and> set postfix \<subseteq> set (tokens_of expression)"
    then obtain postfix where
      p: "convertToPostfix (tokens_of expression) = Some (postfix, None)" and
      sub: "set postfix \<subseteq> set (tokens_of expression)" by blast
    from sub tokens_single [of expression]
    have "list_all (\<lambda>t. rune_size t = length t) postfix"
      by (auto simp: list_all_iff)
    from calculate_cases [OF this] obtain v err where
      c: "calculate postfix = Some (v, err)" and
      e: "err = None \<or> err = Some ErrExpressionSyntax \<or> err = Some ErrDivisionByZero
         \<or> err = Some ErrInvalidExpression" by blast
    show ?thesis
    proof (cases err)
      case None
      with False p c show ?thesis by (simp add: Calc_def)
    next
      case (Some x)
      with False p c e show ?thesis by (simp add: Calc_def)
    qed
  qed
qed

subsection \<open>Counting parentheses\<close>

text \<open>
  The number of \<open>(\<close> on the stack is the number of opening parentheses read so far
  that no closing parenthesis has matched. The conversion fails exactly when some prefix
  of the tokens holds more closing than opening parentheses, or the tokens as a whole
  hold different numbers of the two.
\<close>

lemma count_takeWhile_neq:
  "(\<And>t. P t \<Longrightarrow> t \<noteq> x) \<Longrightarrow> count_list (takeWhile P xs) x = 0"
  by (induction xs) auto

lemma count_dropWhile_neq:
  assumes "\<And>t. P t \<Longrightarrow> t \<noteq> x"
  shows "count_list (dropWhile P xs) x = count_list xs x"
proof -
  have "count_list xs x = count_list (takeWhile P xs @ dropWhile P xs) x" by simp
  also have "\<dots> = count_list (takeWhile P xs) x + count_list (dropWhile P xs) x"
    by (simp only: count_list_append)
  finally show ?thesis using count_takeWhile_neq [of P x xs] assms by simp
qed

lemma count_list_rev: "count_list (rev xs) x = count_list xs x"
  by (induction xs) auto

lemma count_list_pos: "(0 < count_list xs x) = (x \<in> set xs)"
  by (induction xs) auto

lemma count_under_paren:
  assumes "''('' \<in> set stack"
  shows "Suc (count_list (butlast (rev (dropWhile (\<lambda>t. t \<noteq> ''('') (rev stack)))) ''('')
         = count_list stack ''(''"
proof -
  let ?d = "dropWhile (\<lambda>t. t \<noteq> ''('') (rev stack)"
  from assms have ne: "?d \<noteq> []" by (auto simp: dropWhile_eq_Nil_conv)
  then obtain y ys where d: "?d = y # ys" by (cases ?d) auto
  then have y: "y = ''(''" using hd_dropWhile [of "\<lambda>t. t \<noteq> ''(''" "rev stack"] by simp
  have "count_list ?d ''('' = count_list stack ''(''"
    using count_dropWhile_neq [of "\<lambda>t. t \<noteq> ''(''" "''(''" "rev stack"]
    by (simp add: count_list_rev)
  moreover have "butlast (rev ?d) = rev ys" by (simp add: d)
  ultimately show ?thesis by (simp add: d y count_list_rev)
qed

lemma convert_token_count:
  "(token = '')'' \<and> ''('' \<notin> set stack
      \<and> convert_token token out stack = Some (Inl ([], Some ErrExpressionSyntax)))
   \<or> (\<exists>out' stack'. convert_token token out stack = Some (Inr (out', stack'))
        \<and> count_list stack' ''('' + (if token = '')'' then 1 else 0)
            = count_list stack ''('' + (if token = ''('' then 1 else 0))"
proof (cases "token = ''(''")
  case True
  then show ?thesis by (simp add: convert_token_eq)
next
  case no_open: False
  show ?thesis
  proof (cases "token = '')''")
    case True
    show ?thesis
    proof (cases "''('' \<in> set stack")
      case False
      with True show ?thesis by (simp add: convert_token_eq)
    next
      case mem: True
      from count_under_paren [OF mem] True mem show ?thesis
        by (simp add: convert_token_eq)
    qed
  next
    case no_close: False
    show ?thesis
    proof (cases "isOperator token")
      case True
      have "count_list (dropWhile (\<lambda>t. t \<noteq> ''('' \<and> precedence token \<le> precedence t) (rev stack)) ''(''
            = count_list stack ''(''"
        using count_dropWhile_neq
          [of "\<lambda>t. t \<noteq> ''('' \<and> precedence token \<le> precedence t" "''(''" "rev stack"]
        by (simp add: count_list_rev)
      with True no_open no_close show ?thesis
        by (simp add: convert_token_eq count_list_rev)
    next
      case False
      with no_open no_close show ?thesis by (simp add: convert_token_eq)
    qed
  qed
qed

lemma convert_tokens_count:
  "(convert_tokens toks out stack = Some (Inl ([], Some ErrExpressionSyntax))
      \<and> (\<exists>pre post. toks = pre @ post
           \<and> count_list stack ''('' + count_list pre ''('' < count_list pre '')''))
   \<or> (\<exists>out' stack'. convert_tokens toks out stack = Some (Inr (out', stack'))
        \<and> (\<forall>pre post. toks = pre @ post \<longrightarrow>
              count_list pre '')'' \<le> count_list stack ''('' + count_list pre ''('')
        \<and> count_list stack' ''('' + count_list toks '')''
            = count_list stack ''('' + count_list toks ''('')"
proof (induction toks arbitrary: out stack)
  case Nil
  show ?case by simp
next
  case (Cons t ts)
  from convert_token_count [of t stack out] show ?case
  proof
    assume f: "t = '')'' \<and> ''('' \<notin> set stack
      \<and> convert_token t out stack = Some (Inl ([], Some ErrExpressionSyntax))"
    then have "count_list stack ''('' = 0" using count_list_pos [of stack "''(''"] by simp
    with f have "t # ts = [t] @ ts
        \<and> count_list stack ''('' + count_list [t] ''('' < count_list [t] '')''"
      by simp
    then have "\<exists>pre post. t # ts = pre @ post
        \<and> count_list stack ''('' + count_list pre ''('' < count_list pre '')''"
      by blast
    moreover from f
    have "convert_token t out stack = Some (Inl ([], Some ErrExpressionSyntax))" by blast
    then have "convert_tokens (t # ts) out stack = Some (Inl ([], Some ErrExpressionSyntax))"
      by simp
    ultimately show ?thesis by blast
  next
    assume "\<exists>out' stack'. convert_token t out stack = Some (Inr (out', stack'))
        \<and> count_list stack' ''('' + (if t = '')'' then 1 else 0)
            = count_list stack ''('' + (if t = ''('' then 1 else 0)"
    then obtain out1 stack1 where
      step: "convert_token t out stack = Some (Inr (out1, stack1))" and
      cnt: "count_list stack1 ''('' + (if t = '')'' then 1 else 0)
            = count_list stack ''('' + (if t = ''('' then 1 else 0)" by blast
    from Cons.IH [of out1 stack1] show ?thesis
    proof
      assume f: "convert_tokens ts out1 stack1 = Some (Inl ([], Some ErrExpressionSyntax))
        \<and> (\<exists>pre post. ts = pre @ post
             \<and> count_list stack1 ''('' + count_list pre ''('' < count_list pre '')'')"
      then obtain pre post where
        ts: "ts = pre @ post" and
        lt: "count_list stack1 ''('' + count_list pre ''('' < count_list pre '')''" by blast
      from ts have "t # ts = (t # pre) @ post" by simp
      moreover from lt cnt
      have "count_list stack ''('' + count_list (t # pre) ''('' < count_list (t # pre) '')''"
        by (auto split: if_splits)
      ultimately have "\<exists>pre post. t # ts = pre @ post
           \<and> count_list stack ''('' + count_list pre ''('' < count_list pre '')''"
        by blast
      moreover from f
      have "convert_tokens ts out1 stack1 = Some (Inl ([], Some ErrExpressionSyntax))" by blast
      with step
      have "convert_tokens (t # ts) out stack = Some (Inl ([], Some ErrExpressionSyntax))"
        by simp
      ultimately show ?thesis by blast
    next
      assume "\<exists>out' stack'. convert_tokens ts out1 stack1 = Some (Inr (out', stack'))
        \<and> (\<forall>pre post. ts = pre @ post \<longrightarrow>
              count_list pre '')'' \<le> count_list stack1 ''('' + count_list pre ''('')
        \<and> count_list stack' ''('' + count_list ts '')''
            = count_list stack1 ''('' + count_list ts ''(''"
      then obtain out' stack' where
        run: "convert_tokens ts out1 stack1 = Some (Inr (out', stack'))" and
        pre: "\<And>pre post. ts = pre @ post \<Longrightarrow>
              count_list pre '')'' \<le> count_list stack1 ''('' + count_list pre ''(''" and
        fin: "count_list stack' ''('' + count_list ts '')''
            = count_list stack1 ''('' + count_list ts ''(''" by blast
      have "count_list pre' '')'' \<le> count_list stack ''('' + count_list pre' ''(''"
        if "t # ts = pre' @ post" for pre' post
      proof (cases pre')
        case Nil
        then show ?thesis by simp
      next
        case (Cons x xs)
        with that have "x = t" and "ts = xs @ post" by simp_all
        with pre [of xs post] cnt Cons show ?thesis by (auto split: if_splits)
      qed
      moreover from fin cnt
      have "count_list stack' ''('' + count_list (t # ts) '')''
            = count_list stack ''('' + count_list (t # ts) ''(''"
        by (auto split: if_splits)
      moreover from run step
      have "convert_tokens (t # ts) out stack = Some (Inr (out', stack'))" by simp
      ultimately show ?thesis by blast
    qed
  qed
qed

lemma convertToPostfix_fails_iff:
  "(convertToPostfix toks = Some ([], Some ErrExpressionSyntax))
   = ((\<exists>pre post. toks = pre @ post \<and> count_list pre ''('' < count_list pre '')'')
      \<or> count_list toks ''('' \<noteq> count_list toks '')'')"
proof -
  from convert_tokens_count [of toks "[]" "[]"] show ?thesis
  proof
    assume "convert_tokens toks [] [] = Some (Inl ([], Some ErrExpressionSyntax))
      \<and> (\<exists>pre post. toks = pre @ post
           \<and> count_list [] ''('' + count_list pre ''('' < count_list pre '')'')"
    then show ?thesis by (auto simp: convertToPostfix_def)
  next
    assume "\<exists>out' stack'. convert_tokens toks [] [] = Some (Inr (out', stack'))
        \<and> (\<forall>pre post. toks = pre @ post \<longrightarrow>
              count_list pre '')'' \<le> count_list [] ''('' + count_list pre ''('')
        \<and> count_list stack' ''('' + count_list toks '')''
            = count_list [] ''('' + count_list toks ''(''"
    then obtain out' stack' where
      run: "convert_tokens toks [] [] = Some (Inr (out', stack'))" and
      pre: "\<And>pre post. toks = pre @ post \<Longrightarrow> count_list pre '')'' \<le> count_list pre ''(''" and
      fin: "count_list stack' ''('' + count_list toks '')'' = count_list toks ''(''"
      by auto
    have nopre: "\<not> (\<exists>pre post. toks = pre @ post \<and> count_list pre ''('' < count_list pre '')'')"
      using pre by (auto simp: not_less)
    show ?thesis
    proof (cases "''('' \<in> set stack'")
      case True
      then have "0 < count_list stack' ''(''" by (simp add: count_list_pos)
      with fin have "count_list toks ''('' \<noteq> count_list toks '')''" by simp
      with run True show ?thesis by (simp add: convertToPostfix_def drain_eq)
    next
      case False
      then have "count_list stack' ''('' = 0" using count_list_pos [of stack' "''(''"] by simp
      with fin have "count_list toks ''('' = count_list toks '')''" by simp
      with run False nopre show ?thesis by (simp add: convertToPostfix_def drain_eq)
    qed
  qed
qed

subsection \<open>Three operands\<close>

text \<open>
  The postfix form of three operands and two operators: the first operator comes out
  before the third operand exactly when the second does not bind tighter; parentheses
  put their operator first whatever the precedences.
\<close>

lemma operator_not_paren: "isOperator t \<Longrightarrow> t \<noteq> ''('' \<and> t \<noteq> '')''"
  by (auto simp: operator_cases)

lemma three_operands:
  assumes ops: "isOperator o1" "isOperator o2"
    and a: "a \<noteq> ''(''" "a \<noteq> '')''" "\<not> isOperator a"
    and b: "b \<noteq> ''(''" "b \<noteq> '')''" "\<not> isOperator b"
    and c: "c \<noteq> ''(''" "c \<noteq> '')''" "\<not> isOperator c"
  shows "convertToPostfix [a, o1, b, o2, c] =
     Some (if precedence o2 \<le> precedence o1 then [a, b, o1, c, o2] else [a, b, c, o2, o1], None)"
  using assms operator_not_paren [of o1] operator_not_paren [of o2]
  by (auto simp: convertToPostfix_def convert_token_eq drain_eq)

lemma parenthesised_first:
  assumes ops: "isOperator o1" "isOperator o2"
    and a: "a \<noteq> ''(''" "a \<noteq> '')''" "\<not> isOperator a"
    and b: "b \<noteq> ''(''" "b \<noteq> '')''" "\<not> isOperator b"
    and c: "c \<noteq> ''(''" "c \<noteq> '')''" "\<not> isOperator c"
  shows "convertToPostfix [a, o1, ''('', b, o2, c, '')''] = Some ([a, b, c, o2, o1], None)"
    and "convertToPostfix [''('', a, o1, b, '')'', o2, c] = Some ([a, b, o1, c, o2], None)"
  using assms operator_not_paren [of o1] operator_not_paren [of o2]
  by (auto simp: convertToPostfix_def convert_token_eq drain_eq)


subsection \<open>The package-level variables are only read\<close>

text \<open>
  Every function returns the store it was given, and in the initial store it returns
  what the function without a store returns.
\<close>

declare pop_operators_st.simps [simp del] drain_st.simps [simp del]

lemma initial_simps:
  "var_operations initial = operations"
  "var_ErrExpressionSyntax initial = ErrExpressionSyntax"
  "var_ErrDivisionByZero initial = ErrDivisionByZero"
  "var_ErrInvalidExpression initial = ErrInvalidExpression"
  by (simp_all add: initial_def)

lemma isOperator_st_initial: "isOperator_st s initial = Some (isOperator s, initial)"
  by (simp add: isOperator_st_def isOperator_def initial_simps)

lemma precedence_st_initial: "precedence_st op initial = Some (precedence op, initial)"
  by (simp add: precedence_st_def precedence_def initial_simps)

lemma pop_operators_st_frame:
  "pop_operators_st token out stack g = Some (st, g') \<Longrightarrow> g' = g"
proof (induction stack arbitrary: out st rule: rev_induct)
  case Nil
  then show ?case by (subst (asm) pop_operators_st.simps) (simp add: len_Nil)
next
  case (snoc x xs)
  from snoc.prems show ?case
    by (subst (asm) pop_operators_st.simps)
       (auto simp: len_snoc len_nonneg index_top slice_to_top precedence_st_def
          split: if_splits dest: snoc.IH)
qed

lemma pop_operators_st_initial:
  "pop_operators_st token out stack initial =
     map_option (\<lambda>st. (st, initial)) (pop_operators token out stack)"
proof (induction stack arbitrary: out rule: rev_induct)
  case Nil
  show ?case
    by (subst pop_operators_st.simps, subst pop_operators.simps) (simp add: len_Nil)
next
  case (snoc x xs)
  show ?case
    by (subst pop_operators_st.simps, subst pop_operators.simps)
       (simp add: len_snoc len_nonneg index_top slice_to_top precedence_st_initial snoc.IH)
qed

lemma drain_st_eq:
  "drain_st out stack g =
     (if ''('' \<in> set stack then Some (Inl ([], Some (var_ErrExpressionSyntax g)), g)
      else Some (Inr (out @ rev stack, []), g))"
proof (induction stack arbitrary: out rule: rev_induct)
  case Nil
  show ?case by (subst drain_st.simps) (simp add: len_Nil)
next
  case (snoc x xs)
  show ?case
    by (subst drain_st.simps)
       (auto simp add: len_snoc len_nonneg index_top slice_to_top snoc.IH)
qed

lemma convert_token_st_frame:
  "convert_token_st token out stack g = Some (r, g') \<Longrightarrow> g' = g"
  by (auto simp: convert_token_st_def isOperator_st_def
      split: if_splits bind_splits prod.splits dest: pop_operators_st_frame)

lemma convert_token_st_initial:
  "convert_token_st token out stack initial =
     map_option (\<lambda>r. (r, initial)) (convert_token token out stack)"
  by (simp add: convert_token_st_def convert_token_eq isOperator_st_initial
      pop_operators_st_initial pop_operators_eq pop_to_paren_eq unmatched_eq
      slice_to_butlast initial_simps)

lemma convert_tokens_st_frame:
  "convert_tokens_st toks out stack g = Some (r, g') \<Longrightarrow> g' = g"
proof (induction toks arbitrary: out stack g)
  case Nil
  then show ?case by simp
next
  case (Cons t ts)
  from Cons.prems show ?case
    by (auto split: bind_splits sum.splits prod.splits
        dest: convert_token_st_frame Cons.IH)
qed

lemma convert_tokens_st_initial:
  "convert_tokens_st toks out stack initial =
     map_option (\<lambda>r. (r, initial)) (convert_tokens toks out stack)"
proof (induction toks arbitrary: out stack)
  case Nil
  show ?case by simp
next
  case (Cons t ts)
  show ?case
    by (cases "convert_token t out stack")
       (auto simp: convert_token_st_initial Cons.IH split: sum.splits)
qed

lemma convertToPostfix_st_frame:
  "convertToPostfix_st toks g = Some (r, g') \<Longrightarrow> g' = g"
  by (auto simp: convertToPostfix_st_def drain_st_eq
      split: bind_splits sum.splits prod.splits if_splits dest: convert_tokens_st_frame)

lemma convertToPostfix_st_initial:
  "convertToPostfix_st toks initial =
     map_option (\<lambda>r. (r, initial)) (convertToPostfix toks)"
  by (cases "convert_tokens toks [] []")
     (auto simp: convertToPostfix_st_def convertToPostfix_def convert_tokens_st_initial
        drain_st_eq drain_eq initial_simps split: sum.splits)

lemma calculate_token_st_frame:
  "calculate_token_st token stack g = Some (r, g') \<Longrightarrow> g' = g"
  by (auto simp: calculate_token_st_def isOperator_st_def
      split: if_splits bind_splits prod.splits)

lemma calculate_token_st_initial:
  "calculate_token_st token stack initial =
     map_option (\<lambda>r. (r, initial)) (calculate_token token stack)"
  by (auto simp: calculate_token_st_def calculate_token_def isOperator_st_initial
      initial_simps split: bind_splits prod.splits)

lemma calculate_tokens_st_frame:
  "calculate_tokens_st postfix stack g = Some (r, g') \<Longrightarrow> g' = g"
proof (induction postfix arbitrary: stack g)
  case Nil
  then show ?case by simp
next
  case (Cons t ts)
  from Cons.prems show ?case
    by (auto split: bind_splits sum.splits prod.splits
        dest: calculate_token_st_frame Cons.IH)
qed

lemma calculate_tokens_st_initial:
  "calculate_tokens_st postfix stack initial =
     map_option (\<lambda>r. (r, initial)) (calculate_tokens postfix stack)"
proof (induction postfix arbitrary: stack)
  case Nil
  show ?case by simp
next
  case (Cons t ts)
  show ?case
    by (cases "calculate_token t stack")
       (auto simp: calculate_token_st_initial Cons.IH split: sum.splits)
qed

lemma calculate_st_frame:
  "calculate_st postfix g = Some (r, g') \<Longrightarrow> g' = g"
  by (auto simp: calculate_st_def calculate_end_st_def
      split: bind_splits sum.splits prod.splits if_splits dest: calculate_tokens_st_frame)

lemma calculate_st_initial:
  "calculate_st postfix initial = map_option (\<lambda>r. (r, initial)) (calculate postfix)"
  by (cases "calculate_tokens postfix []")
     (auto simp: calculate_st_def calculate_def calculate_tokens_st_initial
        calculate_end_st_def calculate_end_def initial_simps split: sum.splits bind_splits)

lemma Calc_st_frame:
  "Calc_st expression g = Some (r, g') \<Longrightarrow> g' = g"
  by (auto simp: Calc_st_def split: bind_splits prod.splits if_splits
      dest: convertToPostfix_st_frame calculate_st_frame)

lemma Calc_st_initial:
  "Calc_st expression initial = map_option (\<lambda>r. (r, initial)) (Calc expression)"
proof (cases "convertToPostfix (tokens_of expression)")
  case None
  then show ?thesis
    by (simp add: Calc_st_def Calc_def convertToPostfix_st_initial initial_simps)
next
  case (Some pe)
  obtain postfix err where pe: "pe = (postfix, err)" by (cases pe)
  show ?thesis
    by (cases "calculate postfix")
       (auto simp: Calc_st_def Calc_def convertToPostfix_st_initial calculate_st_initial
          initial_simps Some pe)
qed

subsection \<open>Evaluation on concrete inputs\<close>

lemmas eval_defs =
  Calc_def tokens_of_def Split_def ReplaceAll_def len_def index_def slice_to_def
  convertToPostfix_def convert_token_def unmatched_def calculate_def calculate_end_def
  calculate_token_def isOperator_def precedence_def operations_def ParseFloat_def
  is_digit_def digit_value_def in_range_def multi_size_def lead_size_def f64_of_nat_def
  round64_def pack64_def significand64_def exponent64_def ilog2_def reaches_def
  round_even_def pow2_def zero64_def f64_sub_def sum64_def scaled_def
  pop_to_paren_eq pop_operators_eq drain_eq explode.simps replace_from.simps
  split_on.simps bits.simps

text \<open>
  The operands that \<open>Calc\<close> can parse are the ten digits; each is a float64 that
  stands for exactly the digit's value.
\<close>

lemma digits_exact:
  "valof (f64_of_nat 0) = 0 \<and> valof (f64_of_nat 1) = 1 \<and> valof (f64_of_nat 2) = 2
   \<and> valof (f64_of_nat 3) = 3 \<and> valof (f64_of_nat 4) = 4 \<and> valof (f64_of_nat 5) = 5
   \<and> valof (f64_of_nat 6) = 6 \<and> valof (f64_of_nat 7) = 7 \<and> valof (f64_of_nat 8) = 8
   \<and> valof (f64_of_nat 9) = 9"
  by (simp add: eval_defs)

lemma ParseFloat_digit:
  "is_digit c \<Longrightarrow> ParseFloat [c] = Some (f64_of_nat (digit_value c), None)"
  by (simp add: ParseFloat_def is_digit_def in_range_def lead_size_def)

section \<open>The properties of the specification\<close>

text \<open>
  C1. The worked examples: \<open>Calc("1+1") = 2\<close>, \<open>Calc("2*3-4") = 2\<close> (the
  multiplication is applied first: the postfix form is \<open>2 3 * 4 -\<close>),
  \<open>Calc("(2+3)*4") = 20\<close> (the parentheses are applied first: \<open>2 3 + 4 *\<close>) and
  \<open>Calc("8-4-2") = 2\<close> (operators of equal precedence associate to the left:
  \<open>8 4 - 2 -\<close>), each with a nil error. The results are the float64 values that stand
  for exactly 2 and 20.

  Multiplication binds tighter than subtraction and addition also when it comes second:
  \<open>Calc("9-2*3") = 3\<close> with the postfix form \<open>9 2 3 * -\<close>, \<open>Calc("1+2*3") = 7\<close>;
  the precedences are 1 for \<open>+ -\<close> and 2 for \<open>* /\<close>. Parentheses override it:
  \<open>Calc("2*(3+4)") = 14\<close> where \<open>Calc("2*3+4") = 10\<close>, and
  \<open>Calc("8-(4-2)") = 6\<close>. For any three operands and two operators, the first
  operator is applied first exactly when the second does not bind tighter, and a
  parenthesised operator is applied first whatever the precedences.
\<close>

theorem Calc_worked_examples:
  "Calc ''1+1'' = Some (f64_of_nat 2, None)
   \<and> Calc ''2*3-4'' = Some (f64_of_nat 2, None)
   \<and> Calc ''(2+3)*4'' = Some (f64_of_nat 20, None)
   \<and> Calc ''8-4-2'' = Some (f64_of_nat 2, None)
   \<and> convertToPostfix (tokens_of ''2*3-4'') = Some ([''2'', ''3'', ''*'', ''4'', ''-''], None)
   \<and> convertToPostfix (tokens_of ''(2+3)*4'') = Some ([''2'', ''3'', ''+'', ''4'', ''*''], None)
   \<and> convertToPostfix (tokens_of ''8-4-2'') = Some ([''8'', ''4'', ''-'', ''2'', ''-''], None)
   \<and> valof (f64_of_nat 2) = 2 \<and> valof (f64_of_nat 20) = 20
   \<and> Calc ''9-2*3'' = Some (f64_of_nat 3, None)
   \<and> Calc ''1+2*3'' = Some (f64_of_nat 7, None)
   \<and> Calc ''2*(3+4)'' = Some (f64_of_nat 14, None)
   \<and> Calc ''2*3+4'' = Some (f64_of_nat 10, None)
   \<and> Calc ''8-(4-2)'' = Some (f64_of_nat 6, None)
   \<and> convertToPostfix (tokens_of ''9-2*3'') = Some ([''9'', ''2'', ''3'', ''*'', ''-''], None)
   \<and> convertToPostfix (tokens_of ''2*(3+4)'') = Some ([''2'', ''3'', ''4'', ''+'', ''*''], None)
   \<and> precedence ''+'' = 1 \<and> precedence ''-'' = 1 \<and> precedence ''*'' = 2 \<and> precedence ''/'' = 2
   \<and> valof (f64_of_nat 3) = 3 \<and> valof (f64_of_nat 7) = 7 \<and> valof (f64_of_nat 14) = 14
   \<and> (isOperator o1 \<and> isOperator o2
        \<and> list_all (\<lambda>t. t \<noteq> ''('' \<and> t \<noteq> '')'' \<and> \<not> isOperator t) [a, b, c] \<longrightarrow>
        convertToPostfix [a, o1, b, o2, c] =
          Some (if precedence o2 \<le> precedence o1 then [a, b, o1, c, o2]
                else [a, b, c, o2, o1], None)
        \<and> convertToPostfix [a, o1, ''('', b, o2, c, '')''] = Some ([a, b, c, o2, o1], None)
        \<and> convertToPostfix [''('', a, o1, b, '')'', o2, c] = Some ([a, b, o1, c, o2], None))"
proof -
  have examples:
    "Calc ''1+1'' = Some (f64_of_nat 2, None)
     \<and> Calc ''2*3-4'' = Some (f64_of_nat 2, None)
     \<and> Calc ''(2+3)*4'' = Some (f64_of_nat 20, None)
     \<and> Calc ''8-4-2'' = Some (f64_of_nat 2, None)
     \<and> convertToPostfix (tokens_of ''2*3-4'') = Some ([''2'', ''3'', ''*'', ''4'', ''-''], None)
     \<and> convertToPostfix (tokens_of ''(2+3)*4'') = Some ([''2'', ''3'', ''+'', ''4'', ''*''], None)
     \<and> convertToPostfix (tokens_of ''8-4-2'') = Some ([''8'', ''4'', ''-'', ''2'', ''-''], None)
     \<and> valof (f64_of_nat 2) = 2 \<and> valof (f64_of_nat 20) = 20"
    by (simp add: eval_defs)
  have tighter:
    "Calc ''9-2*3'' = Some (f64_of_nat 3, None)
     \<and> Calc ''1+2*3'' = Some (f64_of_nat 7, None)
     \<and> Calc ''2*(3+4)'' = Some (f64_of_nat 14, None)
     \<and> Calc ''2*3+4'' = Some (f64_of_nat 10, None)
     \<and> Calc ''8-(4-2)'' = Some (f64_of_nat 6, None)
     \<and> convertToPostfix (tokens_of ''9-2*3'') = Some ([''9'', ''2'', ''3'', ''*'', ''-''], None)
     \<and> convertToPostfix (tokens_of ''2*(3+4)'') = Some ([''2'', ''3'', ''4'', ''+'', ''*''], None)
     \<and> precedence ''+'' = 1 \<and> precedence ''-'' = 1 \<and> precedence ''*'' = 2 \<and> precedence ''/'' = 2
     \<and> valof (f64_of_nat 3) = 3 \<and> valof (f64_of_nat 7) = 7 \<and> valof (f64_of_nat 14) = 14"
    by (simp add: eval_defs)
  have general:
    "isOperator o1 \<and> isOperator o2
        \<and> list_all (\<lambda>t. t \<noteq> ''('' \<and> t \<noteq> '')'' \<and> \<not> isOperator t) [a, b, c] \<longrightarrow>
        convertToPostfix [a, o1, b, o2, c] =
          Some (if precedence o2 \<le> precedence o1 then [a, b, o1, c, o2]
                else [a, b, c, o2, o1], None)
        \<and> convertToPostfix [a, o1, ''('', b, o2, c, '')''] = Some ([a, b, c, o2, o1], None)
        \<and> convertToPostfix [''('', a, o1, b, '')'', o2, c] = Some ([a, b, o1, c, o2], None)"
    using three_operands [of o1 o2 a b c] parenthesised_first [of o1 o2 a b c] by simp
  from examples tighter general show ?thesis by blast
qed

theorem Calc_worked_examples_witness:
  "isOperator ''-'' \<and> isOperator ''*''
   \<and> list_all (\<lambda>t. t \<noteq> ''('' \<and> t \<noteq> '')'' \<and> \<not> isOperator t) [''9'', ''2'', ''3'']
   \<and> convertToPostfix [''9'', ''-'', ''2'', ''*'', ''3''] = Some ([''9'', ''2'', ''3'', ''*'', ''-''], None)
   \<and> convertToPostfix [''9'', ''-'', ''('', ''2'', ''*'', ''3'', '')'']
        = Some ([''9'', ''2'', ''3'', ''*'', ''-''], None)
   \<and> convertToPostfix [''('', ''9'', ''-'', ''2'', '')'', ''*'', ''3'']
        = Some ([''9'', ''2'', ''-'', ''3'', ''*''], None)"
proof -
  have ops: "isOperator ''-'' \<and> isOperator ''*''" by (simp add: operator_cases)
  have opd: "list_all (\<lambda>t. t \<noteq> ''('' \<and> t \<noteq> '')'' \<and> \<not> isOperator t) [''9'', ''2'', ''3'']"
    by (simp add: operator_cases)
  note inst = Calc_worked_examples [of "''-''" "''*''" "''9''" "''2''" "''3''"]
  from inst have prec: "precedence ''-'' = 1 \<and> precedence ''*'' = 2" by blast
  from inst ops opd have
    "convertToPostfix [''9'', ''-'', ''2'', ''*'', ''3''] =
       Some (if precedence ''*'' \<le> precedence ''-'' then [''9'', ''2'', ''-'', ''3'', ''*'']
             else [''9'', ''2'', ''3'', ''*'', ''-''], None)
     \<and> convertToPostfix [''9'', ''-'', ''('', ''2'', ''*'', ''3'', '')'']
        = Some ([''9'', ''2'', ''3'', ''*'', ''-''], None)
     \<and> convertToPostfix [''('', ''9'', ''-'', ''2'', '')'', ''*'', ''3'']
        = Some ([''9'', ''2'', ''-'', ''3'', ''*''], None)"
    by blast
  with prec ops opd show ?thesis by simp
qed

text \<open>
  C2, as amended. The length check of \<open>Calc\<close> is on the raw byte length of its
  argument: nothing is trimmed before it. Every string of fewer than 3 bytes fails with
  \<open>ErrExpressionSyntax\<close> and the result 0, whatever it contains.
\<close>

theorem short_input_is_syntax_error:
  "length expression < 3 \<Longrightarrow> Calc expression = Some (zero64, Some ErrExpressionSyntax)"
  by (simp add: Calc_def len_def)

theorem short_input_is_syntax_error_witness:
  "length ''7'' < 3 \<and> Calc ''7'' = Some (zero64, Some ErrExpressionSyntax)"
  using short_input_is_syntax_error [of "''7''"] by simp

text \<open>
  C2, as stated, fails: the string \<open>" 1 "\<close> is \<open>"1"\<close> between two spaces, so
  its length after trimming is 1, below 3; its raw length is 3, the check passes, and
  \<open>Calc\<close> returns 1 with a nil error.
\<close>

theorem trimmed_length_counterexample:
  "'' 1 '' = '' '' @ ''1'' @ '' '' \<and> length ''1'' < 3 \<and> Calc '' 1 '' = Some (f64_of_nat 1, None)"
  by (simp add: eval_defs)

text \<open>
  C3, as amended. \<open>Calc\<close> removes the space character U+0020 and nothing else from
  an expression, and cuts what remains into tokens of one UTF-8 sequence each (one byte
  for ASCII text; an invalid byte is a token of its own): every token is one non-empty
  sequence, the tokens concatenated are the expression without its spaces, and two
  expressions that differ only in spaces have the same tokens. When both also pass the
  length check (at least 3 bytes each), \<open>Calc\<close> returns the same on both.
\<close>

theorem spaces_removed_then_split:
  "tokens_of e = explode (filter (\<lambda>c. c \<noteq> CHR '' '') e)
   \<and> list_all (\<lambda>t. t \<noteq> [] \<and> rune_size t = length t) (tokens_of e)
   \<and> concat (tokens_of e) = filter (\<lambda>c. c \<noteq> CHR '' '') e
   \<and> (list_all (\<lambda>c. of_char c < (128::nat)) e \<longrightarrow>
        tokens_of e = map (\<lambda>c. [c]) (filter (\<lambda>c. c \<noteq> CHR '' '') e))
   \<and> (filter (\<lambda>c. c \<noteq> CHR '' '') e1 = filter (\<lambda>c. c \<noteq> CHR '' '') e2 \<longrightarrow>
        tokens_of e1 = tokens_of e2)
   \<and> (filter (\<lambda>c. c \<noteq> CHR '' '') e1 = filter (\<lambda>c. c \<noteq> CHR '' '') e2
        \<and> 3 \<le> length e1 \<and> 3 \<le> length e2 \<longrightarrow> Calc e1 = Calc e2)"
proof -
  have a: "concat (tokens_of e) = filter (\<lambda>c. c \<noteq> CHR '' '') e"
    by (simp add: tokens_of_eq concat_explode)
  have b: "list_all (\<lambda>c. of_char c < (128::nat)) e \<longrightarrow>
        tokens_of e = map (\<lambda>c. [c]) (filter (\<lambda>c. c \<noteq> CHR '' '') e)"
  proof
    assume "list_all (\<lambda>c. of_char c < (128::nat)) e"
    then have "list_all (\<lambda>c. of_char c < (128::nat)) (filter (\<lambda>c. c \<noteq> CHR '' '') e)"
      by (simp add: list_all_iff)
    then show "tokens_of e = map (\<lambda>c. [c]) (filter (\<lambda>c. c \<noteq> CHR '' '') e)"
      by (simp add: tokens_of_eq explode_ascii)
  qed
  have c: "filter (\<lambda>c. c \<noteq> CHR '' '') e1 = filter (\<lambda>c. c \<noteq> CHR '' '') e2 \<longrightarrow>
        tokens_of e1 = tokens_of e2"
    by (simp add: tokens_of_eq)
  have d: "filter (\<lambda>c. c \<noteq> CHR '' '') e1 = filter (\<lambda>c. c \<noteq> CHR '' '') e2
        \<and> 3 \<le> length e1 \<and> 3 \<le> length e2 \<longrightarrow> Calc e1 = Calc e2"
    by (simp add: Calc_def len_def tokens_of_eq)
  from a b c d tokens_of_eq tokens_single show ?thesis by blast
qed

theorem spaces_removed_then_split_witness:
  "list_all (\<lambda>c. of_char c < (128::nat)) '' 2 * 3 ''
   \<and> tokens_of '' 2 * 3 '' = [''2'', ''*'', ''3'']
   \<and> filter (\<lambda>c. c \<noteq> CHR '' '') ''2 *3'' = filter (\<lambda>c. c \<noteq> CHR '' '') '' 2 * 3 ''
   \<and> 3 \<le> length ''2 *3'' \<and> 3 \<le> length '' 2 * 3 ''
   \<and> tokens_of ''2 *3'' = tokens_of '' 2 * 3 ''
   \<and> Calc ''2 *3'' = Calc '' 2 * 3 ''"
proof -
  have h1: "list_all (\<lambda>c. of_char c < (128::nat)) '' 2 * 3 ''" by simp
  have h2: "filter (\<lambda>c. c \<noteq> CHR '' '') ''2 *3'' = filter (\<lambda>c. c \<noteq> CHR '' '') '' 2 * 3 ''"
    by simp
  have h3: "3 \<le> length ''2 *3'' \<and> 3 \<le> length '' 2 * 3 ''" by simp
  note inst = spaces_removed_then_split [of "'' 2 * 3 ''" "''2 *3''" "'' 2 * 3 ''"]
  from inst h1 have "tokens_of '' 2 * 3 '' = map (\<lambda>c. [c]) (filter (\<lambda>c. c \<noteq> CHR '' '') '' 2 * 3 '')"
    by blast
  then have t: "tokens_of '' 2 * 3 '' = [''2'', ''*'', ''3'']" by simp
  from inst h2 have u: "tokens_of ''2 *3'' = tokens_of '' 2 * 3 ''" by blast
  from inst h2 h3 have v: "Calc ''2 *3'' = Calc '' 2 * 3 ''" by blast
  from h1 h2 h3 t u v show ?thesis by blast
qed

text \<open>
  C3, as stated, fails: a tab is whitespace, and it is not removed. It becomes a token,
  which is no number, so \<open>"1+<tab>1"\<close> fails where \<open>"1+1"\<close> is 2.
\<close>

theorem tab_is_not_removed_counterexample:
  "tokens_of [CHR ''1'', CHR ''+'', CHR 0x09, CHR ''1''] = [''1'', ''+'', [CHR 0x09], ''1'']
   \<and> tokens_of ''1+1'' = [''1'', ''+'', ''1'']
   \<and> Calc [CHR ''1'', CHR ''+'', CHR 0x09, CHR ''1''] = Some (zero64, Some ErrExpressionSyntax)
   \<and> Calc ''1+1'' = Some (f64_of_nat 2, None)"
  by (simp add: eval_defs)

text \<open>
  C4. With \<open>b\<close> on top of the stack and \<open>a\<close> below it, the token \<open>/\<close>
  returns \<open>ErrDivisionByZero\<close> when \<open>b == 0\<close> and pushes \<open>a / b\<close> otherwise,
  whatever \<open>a\<close> is. One token of the evaluator returns \<open>ErrDivisionByZero\<close>
  exactly when it is \<open>/\<close>, the stack holds two values or more and the top one is
  zero. \<open>b == 0\<close> holds for the two zeros of float64 and for nothing else.
  \<open>0/0\<close> and \<open>Calc("10/0")\<close> return \<open>ErrDivisionByZero\<close>.
\<close>

theorem division_by_zero_iff:
  "calculate_token ''/'' (stack @ [a, b]) =
     (if f64_eq b zero64 then Some (Inl (zero64, Some ErrDivisionByZero))
      else Some (Inr (stack @ [f64_div a b])))
   \<and> ((\<exists>v. calculate_token token stk = Some (Inl (v, Some ErrDivisionByZero)))
        = (token = ''/'' \<and> 2 \<le> length stk \<and> f64_eq (last stk) zero64))
   \<and> f64_eq b zero64 = (\<exists>s e. b = Finite s 0 e)
   \<and> calculate [''0'', ''0'', ''/''] = Some (zero64, Some ErrDivisionByZero)
   \<and> Calc ''10/0'' = Some (zero64, Some ErrDivisionByZero)"
proof -
  have step: "calculate_token ''/'' (stack @ [a, b]) =
     (if f64_eq b zero64 then Some (Inl (zero64, Some ErrDivisionByZero))
      else Some (Inr (stack @ [f64_div a b])))"
    by (simp add: calculate_token_operator operator_cases)
  have origin: "(\<exists>v. calculate_token token stk = Some (Inl (v, Some ErrDivisionByZero)))
        = (token = ''/'' \<and> 2 \<le> length stk \<and> f64_eq (last stk) zero64)"
  proof (cases "isOperator token")
    case False
    then have "token \<noteq> ''/''" by (auto simp: operator_cases)
    with False show ?thesis
      by (auto simp: calculate_token_def split: bind_splits prod.splits if_splits)
  next
    case True
    show ?thesis
    proof (cases "2 \<le> length stk")
      case False
      then have "length stk < 2" by simp
      with True False show ?thesis by (simp add: calculate_token_underflow)
    next
      case two: True
      then obtain ys x y where stk: "stk = ys @ [x, y]" using two_or_more by blast
      show ?thesis
        using True by (auto simp: stk calculate_token_operator operator_cases)
    qed
  qed
  have ex: "calculate [''0'', ''0'', ''/''] = Some (zero64, Some ErrDivisionByZero)"
    by (simp add: eval_defs)
  have calc: "Calc ''10/0'' = Some (zero64, Some ErrDivisionByZero)"
    by (simp add: eval_defs)
  show ?thesis using step origin f64_eq_zero ex calc by blast
qed

text \<open>
  C5. A closing parenthesis read while the stack holds no \<open>(\<close> makes the conversion
  return \<open>ErrExpressionSyntax\<close>, as the loop body and as the whole function after
  any tokens \<open>pre\<close> that leave such a stack. A \<open>(\<close> left on the stack when the
  tokens are consumed makes the final loop, and the whole function, return
  \<open>ErrExpressionSyntax\<close>. When the conversion returns without error, the final loop
  has left the stack empty. On the whole token sequence: the conversion returns
  \<open>ErrExpressionSyntax\<close> exactly when some prefix of the tokens holds more \<open>)\<close>
  than \<open>(\<close>, or the tokens hold different numbers of \<open>(\<close> and \<open>)\<close>.
  \<open>Calc("(1+2")\<close> returns \<open>ErrExpressionSyntax\<close>.
\<close>

theorem unmatched_parentheses_fail:
  "(''('' \<notin> set stack1 \<longrightarrow>
      convert_token '')'' out1 stack1 = Some (Inl ([], Some ErrExpressionSyntax)))
   \<and> (convert_tokens pre [] [] = Some (Inr (out2, stack2)) \<and> ''('' \<notin> set stack2 \<longrightarrow>
      convertToPostfix (pre @ '')'' # post) = Some ([], Some ErrExpressionSyntax))
   \<and> (''('' \<in> set stack3 \<longrightarrow>
      drain out3 stack3 = Some (Inl ([], Some ErrExpressionSyntax)))
   \<and> (convert_tokens toks [] [] = Some (Inr (out4, stack4)) \<and> ''('' \<in> set stack4 \<longrightarrow>
      convertToPostfix toks = Some ([], Some ErrExpressionSyntax))
   \<and> (convertToPostfix toks5 = Some (postfix, None) \<longrightarrow>
      (\<exists>out5 stack5. convert_tokens toks5 [] [] = Some (Inr (out5, stack5))
         \<and> drain out5 stack5 = Some (Inr (postfix, []))))
   \<and> ((convertToPostfix toks6 = Some ([], Some ErrExpressionSyntax))
        = ((\<exists>pre6 post6. toks6 = pre6 @ post6
              \<and> count_list pre6 ''('' < count_list pre6 '')'')
           \<or> count_list toks6 ''('' \<noteq> count_list toks6 '')''))
   \<and> Calc ''(1+2'' = Some (zero64, Some ErrExpressionSyntax)"
proof -
  have a: "''('' \<notin> set stack1 \<longrightarrow>
      convert_token '')'' out1 stack1 = Some (Inl ([], Some ErrExpressionSyntax))"
    by (simp add: convert_token_eq)
  have b: "convert_tokens pre [] [] = Some (Inr (out2, stack2)) \<and> ''('' \<notin> set stack2 \<longrightarrow>
      convertToPostfix (pre @ '')'' # post) = Some ([], Some ErrExpressionSyntax)"
    by (simp add: convertToPostfix_def convert_tokens_append convert_token_eq)
  have c: "''('' \<in> set stack3 \<longrightarrow>
      drain out3 stack3 = Some (Inl ([], Some ErrExpressionSyntax))"
    by (simp add: drain_eq)
  have d: "convert_tokens toks [] [] = Some (Inr (out4, stack4)) \<and> ''('' \<in> set stack4 \<longrightarrow>
      convertToPostfix toks = Some ([], Some ErrExpressionSyntax)"
    by (simp add: convertToPostfix_def drain_eq)
  have e: "convertToPostfix toks5 = Some (postfix, None) \<longrightarrow>
      (\<exists>out5 stack5. convert_tokens toks5 [] [] = Some (Inr (out5, stack5))
         \<and> drain out5 stack5 = Some (Inr (postfix, [])))"
  proof
    assume ok: "convertToPostfix toks5 = Some (postfix, None)"
    from convert_tokens_cases [of toks5 "[]" "[]"]
    show "\<exists>out5 stack5. convert_tokens toks5 [] [] = Some (Inr (out5, stack5))
         \<and> drain out5 stack5 = Some (Inr (postfix, []))"
    proof
      assume "convert_tokens toks5 [] [] = Some (Inl ([], Some ErrExpressionSyntax))"
      with ok show ?thesis by (simp add: convertToPostfix_def)
    next
      assume "\<exists>out' stack'. convert_tokens toks5 [] [] = Some (Inr (out', stack'))
        \<and> set out' \<union> set stack' \<subseteq> set toks5 \<union> set [] \<union> set []"
      then obtain out' stack' where
        "convert_tokens toks5 [] [] = Some (Inr (out', stack'))" by blast
      with ok show ?thesis
        by (auto simp: convertToPostfix_def drain_eq split: if_splits)
    qed
  qed
  have f: "Calc ''(1+2'' = Some (zero64, Some ErrExpressionSyntax)"
    by (simp add: eval_defs)
  have g: "(convertToPostfix toks6 = Some ([], Some ErrExpressionSyntax))
        = ((\<exists>pre6 post6. toks6 = pre6 @ post6
              \<and> count_list pre6 ''('' < count_list pre6 '')'')
           \<or> count_list toks6 ''('' \<noteq> count_list toks6 '')'')"
    by (rule convertToPostfix_fails_iff)
  from a b c d e f g show ?thesis by blast
qed

theorem unmatched_parentheses_fail_witness:
  "''('' \<notin> set [''+'']
   \<and> convert_token '')'' [''1''] [''+''] = Some (Inl ([], Some ErrExpressionSyntax))
   \<and> convert_tokens [''1'', ''+'', ''2''] [] [] = Some (Inr ([''1'', ''2''], [''+'']))
   \<and> convertToPostfix ([''1'', ''+'', ''2''] @ '')'' # [''*'', ''3''])
        = Some ([], Some ErrExpressionSyntax)
   \<and> ''('' \<in> set [''('', ''+'']
   \<and> drain [''1'', ''2''] [''('', ''+''] = Some (Inl ([], Some ErrExpressionSyntax))
   \<and> convert_tokens [''('', ''1'', ''+'', ''2''] [] [] = Some (Inr ([''1'', ''2''], [''('', ''+'']))
   \<and> convertToPostfix [''('', ''1'', ''+'', ''2''] = Some ([], Some ErrExpressionSyntax)
   \<and> convertToPostfix [''('', ''1'', ''+'', ''2'', '')''] = Some ([''1'', ''2'', ''+''], None)
   \<and> (\<exists>out5 stack5. convert_tokens [''('', ''1'', ''+'', ''2'', '')''] [] [] = Some (Inr (out5, stack5))
         \<and> drain out5 stack5 = Some (Inr ([''1'', ''2'', ''+''], [])))"
proof -
  have h1: "''('' \<notin> set [''+'']" by simp
  have h2: "convert_tokens [''1'', ''+'', ''2''] [] [] = Some (Inr ([''1'', ''2''], [''+'']))"
    by (simp add: eval_defs)
  have h3: "''('' \<in> set [''('', ''+'']" by simp
  have h4: "convert_tokens [''('', ''1'', ''+'', ''2''] [] [] = Some (Inr ([''1'', ''2''], [''('', ''+'']))"
    by (simp add: eval_defs)
  have h5: "convertToPostfix [''('', ''1'', ''+'', ''2'', '')''] = Some ([''1'', ''2'', ''+''], None)"
    by (simp add: eval_defs)
  note inst = unmatched_parentheses_fail
    [of "[''+'']" "[''1'']" "[''1'', ''+'', ''2'']" "[''1'', ''2'']" "[''+'']" "[''*'', ''3'']"
        "[''('', ''+'']" "[''1'', ''2'']" "[''('', ''1'', ''+'', ''2'']" "[''1'', ''2'']" "[''('', ''+'']"
        "[''('', ''1'', ''+'', ''2'', '')'']" "[''1'', ''2'', ''+'']"]
  from inst h1 h2 h3 h4 h5 show ?thesis by blast
qed

text \<open>
  C6. When the loop of \<open>calculate\<close> has consumed every token without returning,
  \<open>calculate\<close> returns the one value of the stack if the stack holds exactly one,
  and \<open>ErrInvalidExpression\<close> for every other size: for the tokens \<open>1 2\<close> of
  \<open>"1 2"\<close>, and for no token at all.
\<close>

theorem final_stack_decides:
  "(calculate_tokens postfix [] = Some (Inr stack) \<longrightarrow>
      calculate postfix =
        (if length stack = 1 then Some (stack ! 0, None)
         else Some (zero64, Some ErrInvalidExpression)))
   \<and> calculate [''1'', ''2''] = Some (zero64, Some ErrInvalidExpression)
   \<and> tokens_of ''1 2'' = [''1'', ''2'']
   \<and> Calc ''1 2'' = Some (zero64, Some ErrInvalidExpression)
   \<and> calculate [] = Some (zero64, Some ErrInvalidExpression)"
proof -
  have "calculate_tokens postfix [] = Some (Inr stack) \<longrightarrow>
      calculate postfix =
        (if length stack = 1 then Some (stack ! 0, None)
         else Some (zero64, Some ErrInvalidExpression))"
    by (auto simp: calculate_def calculate_end_def len_def index_def)
  moreover have "calculate [''1'', ''2''] = Some (zero64, Some ErrInvalidExpression)"
    by (simp add: eval_defs)
  moreover have "tokens_of ''1 2'' = [''1'', ''2'']"
    by (simp add: eval_defs)
  moreover have "Calc ''1 2'' = Some (zero64, Some ErrInvalidExpression)"
    by (simp add: eval_defs)
  moreover have "calculate [] = Some (zero64, Some ErrInvalidExpression)"
    by (simp add: eval_defs)
  ultimately show ?thesis by blast
qed

theorem final_stack_decides_witness:
  "calculate_tokens [''7''] [] = Some (Inr [f64_of_nat 7])
   \<and> calculate [''7''] = Some (f64_of_nat 7, None)
   \<and> calculate_tokens [''1'', ''2''] [] = Some (Inr [f64_of_nat 1, f64_of_nat 2])
   \<and> calculate [''1'', ''2''] = Some (zero64, Some ErrInvalidExpression)"
proof -
  have one: "calculate_tokens [''7''] [] = Some (Inr [f64_of_nat 7])"
    by (simp add: eval_defs)
  have two: "calculate_tokens [''1'', ''2''] [] = Some (Inr [f64_of_nat 1, f64_of_nat 2])"
    by (simp add: eval_defs)
  from final_stack_decides [of "[''7'']" "[f64_of_nat 7]"] one
  have "calculate [''7''] = Some (f64_of_nat 7, None)" by simp
  moreover from final_stack_decides [of "[''1'', ''2'']" "[f64_of_nat 1, f64_of_nat 2]"] two
  have "calculate [''1'', ''2''] = Some (zero64, Some ErrInvalidExpression)" by simp
  ultimately show ?thesis using one two by simp
qed

text \<open>
  C7. An operator token read while the stack holds fewer than two values makes the loop
  body, and \<open>calculate\<close> after any tokens \<open>pre\<close> that leave such a stack, return
  \<open>ErrExpressionSyntax\<close>. \<open>Calc("1+")\<close> returns \<open>ErrExpressionSyntax\<close> (from
  the length check, the string having 2 bytes), and so do the tokens \<open>1 +\<close> in the
  evaluator, which \<open>Calc("1+ ")\<close> reaches.
\<close>

theorem operator_needs_two_operands:
  "(isOperator token \<and> length stack < 2 \<longrightarrow>
      calculate_token token stack = Some (Inl (zero64, Some ErrExpressionSyntax)))
   \<and> (calculate_tokens pre [] = Some (Inr stk) \<and> isOperator tok \<and> length stk < 2 \<longrightarrow>
      calculate (pre @ tok # post) = Some (zero64, Some ErrExpressionSyntax))
   \<and> calculate [''1'', ''+''] = Some (zero64, Some ErrExpressionSyntax)
   \<and> Calc ''1+'' = Some (zero64, Some ErrExpressionSyntax)
   \<and> Calc ''1+ '' = Some (zero64, Some ErrExpressionSyntax)"
proof -
  have "calculate_tokens pre [] = Some (Inr stk) \<and> isOperator tok \<and> length stk < 2 \<longrightarrow>
      calculate (pre @ tok # post) = Some (zero64, Some ErrExpressionSyntax)"
    by (simp add: calculate_def calculate_tokens_append calculate_token_underflow)
  moreover have "calculate [''1'', ''+''] = Some (zero64, Some ErrExpressionSyntax)"
    by (simp add: eval_defs)
  moreover have "Calc ''1+'' = Some (zero64, Some ErrExpressionSyntax)"
    by (simp add: eval_defs)
  moreover have "Calc ''1+ '' = Some (zero64, Some ErrExpressionSyntax)"
    by (simp add: eval_defs)
  ultimately show ?thesis using calculate_token_underflow by blast
qed

theorem operator_needs_two_operands_witness:
  "isOperator ''*'' \<and> length [f64_of_nat 3] < 2
   \<and> calculate_token ''*'' [f64_of_nat 3] = Some (Inl (zero64, Some ErrExpressionSyntax))
   \<and> calculate_tokens [''3''] [] = Some (Inr [f64_of_nat 3])
   \<and> calculate ([''3''] @ ''*'' # [''4'']) = Some (zero64, Some ErrExpressionSyntax)"
proof -
  have op: "isOperator ''*''" by (simp add: operator_cases)
  have pre: "calculate_tokens [''3''] [] = Some (Inr [f64_of_nat 3])"
    by (simp add: eval_defs)
  have short: "length [f64_of_nat 3] < 2" by simp
  note inst = operator_needs_two_operands
    [of "''*''" "[f64_of_nat 3]" "[''3'']" "[f64_of_nat 3]" "''*''" "[''4'']"]
  from inst op short
  have "calculate_token ''*'' [f64_of_nat 3] = Some (Inl (zero64, Some ErrExpressionSyntax))"
    by blast
  moreover from inst op short pre
  have "calculate ([''3''] @ ''*'' # [''4'']) = Some (zero64, Some ErrExpressionSyntax)"
    by blast
  ultimately show ?thesis using op pre short by blast
qed

text \<open>
  C8. For every string whatever, digits, operators and parentheses or not, \<open>Calc\<close>
  returns: no index or slice expression is out of range, every loop terminates (each
  loop of the model is a terminating recursion), and the library calls stay inside the
  modelled fragment. The error it returns is nil or one of \<open>ErrExpressionSyntax\<close>,
  \<open>ErrDivisionByZero\<close>, \<open>ErrInvalidExpression\<close>. So do its two stages:
  \<open>convertToPostfix\<close> on every list of tokens, with a nil error or
  \<open>ErrExpressionSyntax\<close>, and \<open>calculate\<close> on every list of tokens of one UTF-8
  sequence each, which are the tokens \<open>Calc\<close> makes.
\<close>

theorem Calc_total:
  "(\<exists>v err. Calc expression = Some (v, err)
      \<and> (err = None \<or> err = Some ErrExpressionSyntax \<or> err = Some ErrDivisionByZero
          \<or> err = Some ErrInvalidExpression))
   \<and> (\<exists>postfix err. convertToPostfix toks = Some (postfix, err)
      \<and> (err = None \<or> err = Some ErrExpressionSyntax))
   \<and> (list_all (\<lambda>t. rune_size t = length t) tokens \<longrightarrow>
       (\<exists>v err. calculate tokens = Some (v, err)
          \<and> (err = None \<or> err = Some ErrExpressionSyntax \<or> err = Some ErrDivisionByZero
              \<or> err = Some ErrInvalidExpression)))"
proof -
  have "\<exists>postfix err. convertToPostfix toks = Some (postfix, err)
      \<and> (err = None \<or> err = Some ErrExpressionSyntax)"
    using convertToPostfix_cases [of toks] by blast
  then show ?thesis
    using Calc_returns [of expression] calculate_cases [of tokens] by blast
qed

theorem Calc_total_witness:
  "list_all (\<lambda>t. rune_size t = length t) [''1'', ''2'', ''+'']
   \<and> (\<exists>v err. calculate [''1'', ''2'', ''+''] = Some (v, err)
        \<and> (err = None \<or> err = Some ErrExpressionSyntax \<or> err = Some ErrDivisionByZero
            \<or> err = Some ErrInvalidExpression))
   \<and> calculate [''1'', ''2'', ''+''] = Some (f64_of_nat 3, None)
   \<and> (\<exists>v err. Calc ''(2+3)*4'' = Some (v, err))"
proof -
  have h: "list_all (\<lambda>t. rune_size t = length t) [''1'', ''2'', ''+'']"
    by (simp add: lead_size_def)
  have c: "calculate [''1'', ''2'', ''+''] = Some (f64_of_nat 3, None)"
    by (simp add: eval_defs)
  note inst = Calc_total [of "''(2+3)*4''" "[]" "[''1'', ''2'', ''+'']"]
  from inst h have "\<exists>v err. calculate [''1'', ''2'', ''+''] = Some (v, err)
        \<and> (err = None \<or> err = Some ErrExpressionSyntax \<or> err = Some ErrDivisionByZero
            \<or> err = Some ErrInvalidExpression)"
    by blast
  moreover from inst have "\<exists>v err. Calc ''(2+3)*4'' = Some (v, err)" by blast
  ultimately show ?thesis using h c by blast
qed

text \<open>
  C9. The hidden state of \<open>Calc\<close> is the package-level variables. In every store an
  invocation that returns leaves the store as it found it, so a second invocation on
  the same string, made in the store the first one left, returns the same value and
  the same error. In the initial store \<open>Calc\<close> returns, what it returns is what the
  function of the expression alone returns, and two invocations one after the other
  return that same pair twice and leave the initial store.
\<close>

theorem Calc_deterministic:
  "(Calc_st expression g = Some (r, g') \<longrightarrow> g' = g)
   \<and> (Calc_st expression g = Some (r1, g1) \<and> Calc_st expression g1 = Some (r2, g2) \<longrightarrow>
        r2 = r1 \<and> g2 = g)
   \<and> Calc_st expression initial = map_option (\<lambda>r. (r, initial)) (Calc expression)
   \<and> (\<exists>r. Calc expression = Some r
        \<and> do {
            (r1, g1) \<leftarrow> Calc_st expression initial;
            (r2, g2) \<leftarrow> Calc_st expression g1;
            Some (r1, r2, g2)
          } = Some (r, r, initial))"
proof -
  have frame: "Calc_st expression g = Some (r, g') \<longrightarrow> g' = g"
    using Calc_st_frame by blast
  have twice: "Calc_st expression g = Some (r1, g1) \<and> Calc_st expression g1 = Some (r2, g2) \<longrightarrow>
        r2 = r1 \<and> g2 = g"
  proof
    assume h: "Calc_st expression g = Some (r1, g1) \<and> Calc_st expression g1 = Some (r2, g2)"
    then have "g1 = g" using Calc_st_frame by blast
    with h show "r2 = r1 \<and> g2 = g" by auto
  qed
  from Calc_returns [of expression] obtain v err where c: "Calc expression = Some (v, err)"
    by blast
  then have "do {
            (r1, g1) \<leftarrow> Calc_st expression initial;
            (r2, g2) \<leftarrow> Calc_st expression g1;
            Some (r1, r2, g2)
          } = Some ((v, err), (v, err), initial)"
    by (simp add: Calc_st_initial)
  with c have run: "\<exists>r. Calc expression = Some r
        \<and> do {
            (r1, g1) \<leftarrow> Calc_st expression initial;
            (r2, g2) \<leftarrow> Calc_st expression g1;
            Some (r1, r2, g2)
          } = Some (r, r, initial)"
    by blast
  from frame twice run Calc_st_initial show ?thesis by blast
qed

theorem Calc_deterministic_witness:
  "Calc_st ''1+1'' initial = Some ((f64_of_nat 2, None), initial)
   \<and> Calc_st ''7'' (initial\<lparr>var_ErrExpressionSyntax := ErrNotPostMethod\<rparr>)
       = Some ((zero64, Some ErrNotPostMethod), initial\<lparr>var_ErrExpressionSyntax := ErrNotPostMethod\<rparr>)
   \<and> (\<forall>r2 g2. Calc_st ''1+1'' initial = Some (r2, g2) = (r2 = (f64_of_nat 2, None) \<and> g2 = initial))"
proof -
  have c: "Calc ''1+1'' = Some (f64_of_nat 2, None)" by (simp add: eval_defs)
  have a: "Calc_st ''1+1'' initial = Some ((f64_of_nat 2, None), initial)"
    by (simp add: Calc_st_initial c)
  have b: "Calc_st ''7'' (initial\<lparr>var_ErrExpressionSyntax := ErrNotPostMethod\<rparr>)
       = Some ((zero64, Some ErrNotPostMethod), initial\<lparr>var_ErrExpressionSyntax := ErrNotPostMethod\<rparr>)"
    by (simp add: Calc_st_def len_def)
  have "r2 = (f64_of_nat 2, None) \<and> g2 = initial"
    if "Calc_st ''1+1'' initial = Some (r2, g2)" for r2 g2
    using Calc_deterministic [of "''1+1''" initial "(f64_of_nat 2, None)" initial
        "(f64_of_nat 2, None)" initial r2 g2] a that
    by blast
  with a b show ?thesis by auto
qed

text \<open>
  C10. When \<open>Calc\<close> returns a non-nil error, the float64 beside it is the constant 0
  (positive zero); the same holds for \<open>calculate\<close>.
\<close>

theorem failed_evaluation_returns_zero:
  "(Calc expression = Some (v, Some err) \<longrightarrow> v = zero64)
   \<and> (calculate postfix = Some (w, Some err') \<longrightarrow> w = zero64)"
proof -
  have "Calc expression = Some (v, Some err) \<longrightarrow> v = zero64"
    by (auto simp: Calc_def split: if_splits bind_splits prod.splits)
  then show ?thesis using calculate_error by blast
qed

theorem failed_evaluation_returns_zero_witness:
  "Calc ''5/0'' = Some (zero64, Some ErrDivisionByZero)
   \<and> calculate [''5'', ''+''] = Some (zero64, Some ErrExpressionSyntax)
   \<and> fst (the (Calc ''5/0'')) = zero64 \<and> fst (the (calculate [''5'', ''+''])) = zero64"
proof -
  have a: "Calc ''5/0'' = Some (zero64, Some ErrDivisionByZero)"
    by (simp add: eval_defs)
  have b: "calculate [''5'', ''+''] = Some (zero64, Some ErrExpressionSyntax)"
    by (simp add: eval_defs)
  from failed_evaluation_returns_zero
    [of "''5/0''" zero64 ErrDivisionByZero "[''5'', ''+'']" zero64 ErrExpressionSyntax] a b
  show ?thesis by simp
qed

end
